theory Spec2Isabelle
  imports Complex_Main "HOL-Library.Word" "HOL-Library.Log_Nat"
begin

section \<open>The exchange-rate page: \<^verbatim>\<open>src/pages/index.tsx\<close>\<close>

text \<open>
  The page has two functions. \<^verbatim>\<open>getServerSideProps\<close> fetches the last ten rate records,
  formats each one (two display times, two parsed rates) and reverses the array.
  \<^verbatim>\<open>CurrencyExchangeGraph\<close> renders an error panel or a chart whose value axis runs from
  \<^verbatim>\<open>minRate\<close> to \<^verbatim>\<open>maxRate\<close>, and holds the language toggle.

  Both call into the JavaScript runtime (\<^verbatim>\<open>parseFloat\<close>, \<^verbatim>\<open>Date\<close>, \<^verbatim>\<open>Math\<close>,
  \<^verbatim>\<open>padStart\<close>). The runtime functions are modelled first, after ECMA-262; the page's own
  code follows and keeps the source's names.
\<close>

section \<open>JavaScript Number values\<close>

text \<open>
  A Number is an IEEE 754 binary64 value. The finite ones are carried by the rational they
  denote (\<open>Fin 0\<close> is \<open>+0\<close>); \<open>-0\<close>, the infinities and \<open>NaN\<close> are constructors of
  their own.
\<close>

datatype number = NaN | PosInf | NegInf | NegZero | Fin rat

text \<open>\<open>ilog2 a\<close> is the binary exponent of a positive rational: \<open>2^e \<le> a < 2^(e+1)\<close>.\<close>

definition ilog2 :: "rat \<Rightarrow> int" where
  "ilog2 a =
     (let (p, d) = quotient_of a; k = bitlen p - bitlen d
      in if 2 powi k \<le> a then k else k - 1)"

definition round_half_even :: "rat \<Rightarrow> int" where
  "round_half_even x =
     (let f = \<lfloor>x\<rfloor>; r = x - of_int f
      in if r < 1 / 2 then f
         else if 1 / 2 < r then f + 1
         else if even f then f else f + 1)"

text \<open>
  The binary64 values around a positive \<open>a\<close> lie \<open>2^(e - 52)\<close> apart, with \<open>e\<close> the
  exponent of \<open>a\<close> and at least \<open>-1022\<close> (the subnormal range).
\<close>

definition spacing :: "rat \<Rightarrow> rat" where
  "spacing a = 2 powi (max (ilog2 a) (- 1022) - 52)"

text \<open>
  The Number value for a real \<open>x\<close> (ECMA-262, 6.1.6.1): the binary64 value nearest to
  \<open>x\<close>, ties to the even significand; \<open>2^1024\<close> counts as a value with an even significand
  and is replaced by the infinity; a zero reached from a negative \<open>x\<close> is \<open>-0\<close>.
\<close>

definition number_for :: "rat \<Rightarrow> number" where
  "number_for x =
     (if x = 0 then Fin 0
      else
        let a = \<bar>x\<bar>;
            u = spacing a;
            r = of_int (round_half_even (a / u)) * u
        in if 2 ^ 1024 \<le> r then (if 0 < x then PosInf else NegInf)
           else if r = 0 then (if 0 < x then Fin 0 else NegZero)
           else Fin (if 0 < x then r else - r))"

fun real_of :: "number \<Rightarrow> rat" where
  "real_of (Fin q) = q"
| "real_of _ = 0"

fun negative :: "number \<Rightarrow> bool" where
  "negative (Fin q) = (q < 0)"
| "negative NegZero = True"
| "negative NegInf = True"
| "negative _ = False"

definition is_zero :: "number \<Rightarrow> bool" where
  "is_zero n = (n = Fin 0 \<or> n = NegZero)"

definition is_inf :: "number \<Rightarrow> bool" where
  "is_inf n = (n = PosInf \<or> n = NegInf)"

text \<open>\<^verbatim>\<open>x * y\<close> on Numbers (Number::multiply).\<close>

definition num_mul :: "number \<Rightarrow> number \<Rightarrow> number" where
  "num_mul x y =
     (if x = NaN \<or> y = NaN then NaN
      else if (is_inf x \<and> is_zero y) \<or> (is_zero x \<and> is_inf y) then NaN
      else if is_inf x \<or> is_inf y then (if negative x = negative y then PosInf else NegInf)
      else if is_zero x \<or> is_zero y then (if negative x = negative y then Fin 0 else NegZero)
      else number_for (real_of x * real_of y))"

text \<open>\<^verbatim>\<open>x < y\<close> on Numbers: false when either is \<open>NaN\<close>; the two zeros are equal.\<close>

fun num_lt :: "number \<Rightarrow> number \<Rightarrow> bool" where
  "num_lt NaN _ = False"
| "num_lt _ NaN = False"
| "num_lt PosInf _ = False"
| "num_lt _ NegInf = False"
| "num_lt NegInf _ = True"
| "num_lt _ PosInf = True"
| "num_lt x y = (real_of x < real_of y)"

subsection \<open>The \<^verbatim>\<open>Math\<close> functions the page calls\<close>

fun Math_floor :: "number \<Rightarrow> number" where
  "Math_floor (Fin q) = Fin (of_int \<lfloor>q\<rfloor>)"
| "Math_floor n = n"

fun Math_ceil :: "number \<Rightarrow> number" where
  "Math_ceil (Fin q) = (if - 1 < q \<and> q < 0 then NegZero else Fin (of_int \<lceil>q\<rceil>))"
| "Math_ceil n = n"

text \<open>
  \<^verbatim>\<open>Math.min(...args)\<close>: the running value starts at \<open>+\<infinity>\<close>; a \<open>NaN\<close> argument makes
  the result \<open>NaN\<close>; \<open>-0\<close> is below \<open>+0\<close>. \<^verbatim>\<open>Math.max\<close> mirrors it from \<open>-\<infinity>\<close>.
\<close>

fun min_loop :: "number \<Rightarrow> number list \<Rightarrow> number" where
  "min_loop lowest [] = lowest"
| "min_loop lowest (n # ns) =
     (if n = NaN then NaN
      else if n = NegZero \<and> lowest = Fin 0 then min_loop NegZero ns
      else if num_lt n lowest then min_loop n ns
      else min_loop lowest ns)"

definition Math_min :: "number list \<Rightarrow> number" where
  "Math_min args = min_loop PosInf args"

fun max_loop :: "number \<Rightarrow> number list \<Rightarrow> number" where
  "max_loop highest [] = highest"
| "max_loop highest (n # ns) =
     (if n = NaN then NaN
      else if n = Fin 0 \<and> highest = NegZero then max_loop (Fin 0) ns
      else if num_lt highest n then max_loop n ns
      else max_loop highest ns)"

definition Math_max :: "number list \<Rightarrow> number" where
  "Math_max args = max_loop NegInf args"

section \<open>JavaScript strings\<close>

text \<open>
  A String is a sequence of UTF-16 code units. \<open>ascii\<close> embeds an ASCII literal; the two
  characters of the Chinese display time outside ASCII are the code units U+6708 (month)
  and U+65E5 (day).
\<close>

type_synonym jsstring = "16 word list"

definition cu :: "char \<Rightarrow> 16 word" where
  "cu c = of_nat (of_char c)"

definition ascii :: "string \<Rightarrow> jsstring" where
  "ascii s = map cu s"

definition is_digit :: "16 word \<Rightarrow> bool" where
  "is_digit c = (48 \<le> c \<and> c \<le> 57)"

definition digits_value :: "jsstring \<Rightarrow> nat" where
  "digits_value ds = foldl (\<lambda>acc c. 10 * acc + (unat c - 48)) 0 ds"

text \<open>\<^verbatim>\<open>n.toString()\<close> for an integral Number below \<open>10^21\<close>: its decimal digits.\<close>

fun decimal :: "nat \<Rightarrow> jsstring" where
  "decimal n = (if n < 10 then [of_nat (48 + n)] else decimal (n div 10) @ [of_nat (48 + n mod 10)])"

definition int_toString :: "int \<Rightarrow> jsstring" where
  "int_toString i = (if i < 0 then cu CHR ''-'' # decimal (nat (- i)) else decimal (nat i))"

text \<open>\<^verbatim>\<open>s.padStart(n, c)\<close> with a filler of one code unit.\<close>

definition padStart :: "nat \<Rightarrow> 16 word \<Rightarrow> jsstring \<Rightarrow> jsstring" where
  "padStart n c s = replicate (n - length s) c @ s"

subsection \<open>\<^verbatim>\<open>parseFloat\<close>\<close>

text \<open>
  \<^verbatim>\<open>parseFloat(string)\<close> (ECMA-262, 19.2.4) drops leading white space and line
  terminators, takes the longest prefix that is a \<^verbatim>\<open>StrDecimalLiteral\<close> and returns its
  Number value; with no such prefix the result is \<open>NaN\<close>. It never throws.
\<close>

definition is_white_space :: "16 word \<Rightarrow> bool" where
  "is_white_space c =
     (c = 0x9 \<or> c = 0xA \<or> c = 0xB \<or> c = 0xC \<or> c = 0xD \<or> c = 0x20 \<or> c = 0xA0
      \<or> c = 0x1680 \<or> (0x2000 \<le> c \<and> c \<le> 0x200A) \<or> c = 0x2028 \<or> c = 0x2029
      \<or> c = 0x202F \<or> c = 0x205F \<or> c = 0x3000 \<or> c = 0xFEFF)"

text \<open>
  \<^verbatim>\<open>ExponentPart\<close>, when the text starts with one: \<^verbatim>\<open>e\<close> or \<^verbatim>\<open>E\<close>, an optional sign
  and at least one digit. Anything else is not part of the literal and counts as exponent 0.
\<close>

definition exponent_part :: "jsstring \<Rightarrow> int" where
  "exponent_part s =
     (case s of
        [] \<Rightarrow> 0
      | c # r \<Rightarrow>
          if c = cu CHR ''e'' \<or> c = cu CHR ''E'' then
            (case r of
               [] \<Rightarrow> 0
             | d # r' \<Rightarrow>
                 if is_digit d then int (digits_value (takeWhile is_digit r))
                 else if d = cu CHR ''+'' then int (digits_value (takeWhile is_digit r'))
                 else if d = cu CHR ''-'' then - int (digits_value (takeWhile is_digit r'))
                 else 0)
          else 0)"

text \<open>
  The mathematical value of digits \<open>ip\<close>, fraction digits \<open>fp\<close> and exponent \<open>e\<close>,
  rounded to the nearest Number (past twenty significant digits ECMA-262 lets an
  implementation round the decimal first; the engines round correctly).
\<close>

definition literal_value :: "jsstring \<Rightarrow> jsstring \<Rightarrow> int \<Rightarrow> number" where
  "literal_value ip fp e =
     number_for (of_nat (digits_value (ip @ fp)) * 10 powi (e - int (length fp)))"

definition unsigned_literal :: "jsstring \<Rightarrow> number option" where
  "unsigned_literal s =
     (if take 8 s = ascii ''Infinity'' then Some PosInf
      else
        let ip = takeWhile is_digit s; r1 = dropWhile is_digit s
        in case r1 of
             [] \<Rightarrow> if ip = [] then None else Some (literal_value ip [] 0)
           | c # r2 \<Rightarrow>
               if c = cu CHR ''.'' then
                 (let fp = takeWhile is_digit r2; r3 = dropWhile is_digit r2
                  in if ip = [] \<and> fp = [] then None
                     else Some (literal_value ip fp (exponent_part r3)))
               else if ip = [] then None
               else Some (literal_value ip [] (exponent_part r1)))"

fun negate :: "number \<Rightarrow> number" where
  "negate (Fin q) = (if q = 0 then NegZero else Fin (- q))"
| "negate NegZero = Fin 0"
| "negate PosInf = NegInf"
| "negate NegInf = PosInf"
| "negate NaN = NaN"

text \<open>A \<^verbatim>\<open>StrDecimalLiteral\<close> at the start of the text, if any: an optional sign first.\<close>

definition str_decimal_literal :: "jsstring \<Rightarrow> number option" where
  "str_decimal_literal s =
     (case s of
        [] \<Rightarrow> None
      | c # r \<Rightarrow>
          if c = cu CHR ''+'' then unsigned_literal r
          else if c = cu CHR ''-'' then map_option negate (unsigned_literal r)
          else unsigned_literal (c # r))"

definition parseFloat_string :: "jsstring \<Rightarrow> number" where
  "parseFloat_string s =
     (case str_decimal_literal (dropWhile is_white_space s) of
        None \<Rightarrow> NaN
      | Some v \<Rightarrow> v)"

section \<open>JavaScript Date\<close>

text \<open>
  A Date holds a time value: milliseconds since the epoch in UTC, or \<open>NaN\<close> (an invalid
  date), here \<open>None\<close>. The calendar functions are those of ECMA-262, 21.4.1.
\<close>

definition msPerDay :: int where
  "msPerDay = 86400000"

definition Day :: "int \<Rightarrow> int" where
  "Day t = t div msPerDay"

definition DaysInYear :: "int \<Rightarrow> int" where
  "DaysInYear y =
     (if y mod 4 \<noteq> 0 then 365
      else if y mod 100 \<noteq> 0 then 366
      else if y mod 400 \<noteq> 0 then 365
      else 366)"

definition DayFromYear :: "int \<Rightarrow> int" where
  "DayFromYear y =
     365 * (y - 1970) + (y - 1969) div 4 - (y - 1901) div 100 + (y - 1601) div 400"

text \<open>
  \<open>YearFromTime t\<close> is the largest year that starts at or before \<open>t\<close>. The search runs
  upwards from a year that starts no later than day \<open>d\<close>.
\<close>

function year_search :: "int \<Rightarrow> int \<Rightarrow> int" where
  "year_search d y = (if DayFromYear (y + 1) \<le> d then year_search d (y + 1) else y)"
  by pat_completeness auto
termination
  by (relation "measure (\<lambda>(d, y). nat (d + 1 - DayFromYear (y + 1)))")
     (auto simp: DayFromYear_def)

definition YearFromTime :: "int \<Rightarrow> int" where
  "YearFromTime t =
     (let d = Day t in year_search d (1970 + (if 0 \<le> d then d div 366 else d div 365 - 1)))"

definition InLeapYear :: "int \<Rightarrow> int" where
  "InLeapYear t = (if DaysInYear (YearFromTime t) = 366 then 1 else 0)"

definition DayWithinYear :: "int \<Rightarrow> int" where
  "DayWithinYear t = Day t - DayFromYear (YearFromTime t)"

definition MonthFromTime :: "int \<Rightarrow> int" where
  "MonthFromTime t =
     (let d = DayWithinYear t; l = InLeapYear t
      in if d < 31 then 0
         else if d < 59 + l then 1
         else if d < 90 + l then 2
         else if d < 120 + l then 3
         else if d < 151 + l then 4
         else if d < 181 + l then 5
         else if d < 212 + l then 6
         else if d < 243 + l then 7
         else if d < 273 + l then 8
         else if d < 304 + l then 9
         else if d < 334 + l then 10
         else 11)"

definition DateFromTime :: "int \<Rightarrow> int" where
  "DateFromTime t =
     (let d = DayWithinYear t; l = InLeapYear t; m = MonthFromTime t
      in if m = 0 then d + 1
         else if m = 1 then d - 30
         else if m = 2 then d - 58 - l
         else if m = 3 then d - 89 - l
         else if m = 4 then d - 119 - l
         else if m = 5 then d - 150 - l
         else if m = 6 then d - 180 - l
         else if m = 7 then d - 211 - l
         else if m = 8 then d - 242 - l
         else if m = 9 then d - 272 - l
         else if m = 10 then d - 303 - l
         else d - 333 - l)"

definition HourFromTime :: "int \<Rightarrow> int" where
  "HourFromTime t = (t div 3600000) mod 24"

definition MinFromTime :: "int \<Rightarrow> int" where
  "MinFromTime t = (t div 60000) mod 60"

subsection \<open>The host: time zone and date parsing\<close>

text \<open>
  Two things are left to the machine the page runs on. \<open>LocalTZA h t\<close> is the offset of
  its local time from UTC, in milliseconds, at the instant \<open>t\<close>. \<open>impl_parse h\<close> is what
  its \<^verbatim>\<open>Date.parse\<close> makes of a string that is not in the format below (ECMA-262 leaves
  that to the implementation).
\<close>

record host =
  LocalTZA :: "int \<Rightarrow> int"
  impl_parse :: "jsstring \<Rightarrow> int option"

definition LocalTime :: "host \<Rightarrow> int \<Rightarrow> int" where
  "LocalTime h t = t + LocalTZA h t"

text \<open>
  The complete UTC form of the Date Time String Format, \<^verbatim>\<open>YYYY-MM-DDTHH:mm:ssZ\<close> and
  \<^verbatim>\<open>YYYY-MM-DDTHH:mm:ss.sssZ\<close>, with every field in range: every implementation reads it
  the same way.
\<close>

definition field :: "jsstring \<Rightarrow> nat \<Rightarrow> nat \<Rightarrow> int option" where
  "field s i n =
     (let d = take n (drop i s)
      in if length d = n \<and> list_all is_digit d then Some (int (digits_value d)) else None)"

definition days_before_month :: "int \<Rightarrow> int \<Rightarrow> int" where
  "days_before_month y m =
     (let l = (if DaysInYear y = 366 then 1 else 0)
      in if m = 1 then 0
         else if m = 2 then 31
         else if m = 3 then 59 + l
         else if m = 4 then 90 + l
         else if m = 5 then 120 + l
         else if m = 6 then 151 + l
         else if m = 7 then 181 + l
         else if m = 8 then 212 + l
         else if m = 9 then 243 + l
         else if m = 10 then 273 + l
         else if m = 11 then 304 + l
         else 334 + l)"

definition days_in_month :: "int \<Rightarrow> int \<Rightarrow> int" where
  "days_in_month y m =
     (if m = 12 then 31 else days_before_month y (m + 1) - days_before_month y m)"

definition separators_ok :: "jsstring \<Rightarrow> bool" where
  "separators_ok s =
     (if length s = 20 \<or> length s = 24 then
        s ! 4 = cu CHR ''-'' \<and> s ! 7 = cu CHR ''-'' \<and> s ! 10 = cu CHR ''T''
        \<and> s ! 13 = cu CHR '':'' \<and> s ! 16 = cu CHR '':''
        \<and> (if length s = 20 then s ! 19 = cu CHR ''Z''
            else s ! 19 = cu CHR ''.'' \<and> s ! 23 = cu CHR ''Z'')
      else False)"

definition parse_utc :: "jsstring \<Rightarrow> int option" where
  "parse_utc s =
     (if separators_ok s then
        (case (field s 0 4, field s 5 2, field s 8 2, field s 11 2, field s 14 2, field s 17 2,
               if length s = 24 then field s 20 3 else Some 0) of
           (Some y, Some mo, Some d, Some hh, Some mi, Some ss, Some ms) \<Rightarrow>
             if 1 \<le> mo \<and> mo \<le> 12 \<and> 1 \<le> d \<and> d \<le> days_in_month y mo
                \<and> hh \<le> 23 \<and> mi \<le> 59 \<and> ss \<le> 59
             then Some ((DayFromYear y + days_before_month y mo + d - 1) * msPerDay
                        + hh * 3600000 + mi * 60000 + ss * 1000 + ms)
             else None
         | _ \<Rightarrow> None)
      else None)"

definition Date_parse :: "host \<Rightarrow> jsstring \<Rightarrow> int option" where
  "Date_parse h s = (case parse_utc s of Some t \<Rightarrow> Some t | None \<Rightarrow> impl_parse h s)"

subsection \<open>The Date methods the page calls\<close>

text \<open>The getters read the local time; on an invalid date they return \<open>NaN\<close>.\<close>

definition getDate :: "host \<Rightarrow> int option \<Rightarrow> int option" where
  "getDate h date = map_option (\<lambda>t. DateFromTime (LocalTime h t)) date"

definition getMonth :: "host \<Rightarrow> int option \<Rightarrow> int option" where
  "getMonth h date = map_option (\<lambda>t. MonthFromTime (LocalTime h t)) date"

definition getHours :: "host \<Rightarrow> int option \<Rightarrow> int option" where
  "getHours h date = map_option (\<lambda>t. HourFromTime (LocalTime h t)) date"

definition getMinutes :: "host \<Rightarrow> int option \<Rightarrow> int option" where
  "getMinutes h date = map_option (\<lambda>t. MinFromTime (LocalTime h t)) date"

text \<open>\<^verbatim>\<open>n.toString()\<close> of a getter's result.\<close>

definition toString :: "int option \<Rightarrow> jsstring" where
  "toString n = (case n of None \<Rightarrow> ascii ''NaN'' | Some i \<Rightarrow> int_toString i)"

definition month_short :: "int \<Rightarrow> jsstring" where
  "month_short m =
     (if m = 0 then ascii ''Jan''
      else if m = 1 then ascii ''Feb''
      else if m = 2 then ascii ''Mar''
      else if m = 3 then ascii ''Apr''
      else if m = 4 then ascii ''May''
      else if m = 5 then ascii ''Jun''
      else if m = 6 then ascii ''Jul''
      else if m = 7 then ascii ''Aug''
      else if m = 8 then ascii ''Sep''
      else if m = 9 then ascii ''Oct''
      else if m = 10 then ascii ''Nov''
      else ascii ''Dec'')"

text \<open>\<^verbatim>\<open>date.toLocaleString('en-US', { month: 'short' })\<close>, in the host's time zone.\<close>

definition toLocaleString_month_short :: "host \<Rightarrow> int option \<Rightarrow> jsstring" where
  "toLocaleString_month_short h date =
     (case date of
        None \<Rightarrow> ascii ''Invalid Date''
      | Some t \<Rightarrow> month_short (MonthFromTime (LocalTime h t)))"

section \<open>The data of the page\<close>

text \<open>
  A record of the rate service carries two rates and a timestamp. The service sends the
  rates as strings or as numbers; after formatting they are Numbers. The three fields are
  shared by the raw record, by \<^verbatim>\<open>ExchangeRateData\<close> and by the chart's rows, which differ
  in what they add.
\<close>

datatype rate_field = RateString jsstring | RateNumber number

record 'r RateFields =
  buying_rate :: 'r
  selling_rate :: 'r
  timestamp :: jsstring

type_synonym RawRateRecord = "rate_field RateFields"

record FormattedTime =
  en :: jsstring
  zh :: jsstring

record ExchangeRateData = "number RateFields" +
  formattedTime :: FormattedTime

record PageProps =
  exchangeData :: "ExchangeRateData list"
  error :: "jsstring option"

text \<open>
  \<^verbatim>\<open>parseFloat\<close> converts its argument to a string first. A Number prints as the shortest
  decimal that reads back as the same Number, so it comes back unchanged, but for \<open>-0\<close>,
  which prints as \<^verbatim>\<open>0\<close>.
\<close>

fun parseFloat :: "rate_field \<Rightarrow> number" where
  "parseFloat (RateString s) = parseFloat_string s"
| "parseFloat (RateNumber n) = (if n = NegZero then Fin 0 else n)"

section \<open>\<^verbatim>\<open>getServerSideProps\<close>\<close>

text \<open>
  What the outside world hands to one run: \<^verbatim>\<open>fetch\<close> rejects (no connection) or resolves
  to a response with a status; \<^verbatim>\<open>response.json()\<close> rejects (the body is not JSON) or
  yields a value that is an array or not; an element of the array is \<^verbatim>\<open>null\<close> or a
  record. \<^verbatim>\<open>response.ok\<close> is true for the statuses 200 to 299.
\<close>

datatype json_data = NotAnArray | Array "RawRateRecord option list"

record response =
  status :: nat
  json :: "json_data option"

datatype fetch_result = Rejected | Resolved response

definition ok :: "response \<Rightarrow> bool" where
  "ok r = (200 \<le> status r \<and> status r \<le> 299)"

text \<open>
  What can be thrown inside the \<^verbatim>\<open>try\<close> block: the rejection of \<^verbatim>\<open>fetch\<close>, the
  \<^verbatim>\<open>Error\<close> the code throws itself (with its message), the rejection of
  \<^verbatim>\<open>response.json()\<close>, and the \<^verbatim>\<open>TypeError\<close> of \<^verbatim>\<open>data.map\<close> on a value without
  \<^verbatim>\<open>map\<close> or of \<^verbatim>\<open>item.timestamp\<close> on \<^verbatim>\<open>null\<close>.
\<close>

datatype js_error = FetchFailed | Error jsstring | SyntaxError | TypeError

text \<open>
  The callback of \<^verbatim>\<open>data.map\<close>, for an element that is a record. \<^verbatim>\<open>new Date(string)\<close>
  parses the timestamp; the spread \<^verbatim>\<open>...item\<close> copies the record's fields, and the two
  rates are then replaced by what \<^verbatim>\<open>parseFloat\<close> makes of them.
\<close>

definition format_item :: "host \<Rightarrow> RawRateRecord \<Rightarrow> ExchangeRateData" where
  "format_item h item =
     (let date = Date_parse h (timestamp item);
          monthEn = toLocaleString_month_short h date;
          dayEn = padStart 2 (cu CHR ''0'') (toString (getDate h date));
          hoursEn = padStart 2 (cu CHR ''0'') (toString (getHours h date));
          minutesEn = padStart 2 (cu CHR ''0'') (toString (getMinutes h date));
          formattedTimeEn =
            monthEn @ ascii ''-'' @ dayEn @ ascii '' '' @ hoursEn @ ascii '':'' @ minutesEn;
          monthZh = toString (map_option (\<lambda>m. m + 1) (getMonth h date));
          dayZh = toString (getDate h date);
          hoursZh = padStart 2 (cu CHR ''0'') (toString (getHours h date));
          minutesZh = padStart 2 (cu CHR ''0'') (toString (getMinutes h date));
          formattedTimeZh =
            monthZh @ [0x6708] @ dayZh @ [0x65E5] @ ascii '' '' @ hoursZh @ ascii '':''
            @ minutesZh
      in \<lparr> buying_rate = parseFloat (buying_rate item),
           selling_rate = parseFloat (selling_rate item),
           timestamp = timestamp item,
           formattedTime = \<lparr> en = formattedTimeEn, zh = formattedTimeZh \<rparr> \<rparr>)"

text \<open>\<^verbatim>\<open>data.map(...)\<close>: the first \<^verbatim>\<open>null\<close> element throws.\<close>

fun map_items :: "host \<Rightarrow> RawRateRecord option list \<Rightarrow> js_error + ExchangeRateData list" where
  "map_items h [] = Inr []"
| "map_items h (None # rest) = Inl TypeError"
| "map_items h (Some item # rest) =
     (case map_items h rest of
        Inl e \<Rightarrow> Inl e
      | Inr out \<Rightarrow> Inr (format_item h item # out))"

definition reverse :: "'a list \<Rightarrow> 'a list" where
  "reverse xs = rev xs"

text \<open>The transform step: \<^verbatim>\<open>data.map(...).reverse()\<close>.\<close>

definition formattedData :: "host \<Rightarrow> RawRateRecord option list \<Rightarrow> js_error + ExchangeRateData list" where
  "formattedData h data =
     (case map_items h data of
        Inl e \<Rightarrow> Inl e
      | Inr out \<Rightarrow> Inr (reverse out))"

text \<open>
  The body of the \<^verbatim>\<open>try\<close> block, up to the value it would return as \<^verbatim>\<open>exchangeData\<close>.
  The \<^verbatim>\<open>catch\<close> block also writes the error to the console; the console is not modelled.
\<close>

definition try_block :: "host \<Rightarrow> fetch_result \<Rightarrow> js_error + ExchangeRateData list" where
  "try_block h fetched =
     (case fetched of
        Rejected \<Rightarrow> Inl FetchFailed
      | Resolved response \<Rightarrow>
          if \<not> ok response then
            Inl (Error (ascii ''API request failed with status '' @ decimal (status response)))
          else
            (case json response of
               None \<Rightarrow> Inl SyntaxError
             | Some NotAnArray \<Rightarrow> Inl TypeError
             | Some (Array data) \<Rightarrow> formattedData h data))"

definition getServerSideProps :: "host \<Rightarrow> fetch_result \<Rightarrow> PageProps" where
  "getServerSideProps h fetched =
     (case try_block h fetched of
        Inr data \<Rightarrow> \<lparr> exchangeData = data, error = None \<rparr>
      | Inl err \<Rightarrow>
          \<lparr> exchangeData = [],
            error = Some (ascii ''Failed to fetch exchange rate data. Please try again later.'') \<rparr>)"

section \<open>\<^verbatim>\<open>CurrencyExchangeGraph\<close>\<close>

datatype language = En | Zh

definition toggleLanguage :: "language \<Rightarrow> language" where
  "toggleLanguage language = (if language = En then Zh else En)"

text \<open>
  The domain of the value axis reads the two rates of every row and nothing else. The
  literals \<^verbatim>\<open>0.998\<close> and \<^verbatim>\<open>1.002\<close> are the Number values nearest to them.
\<close>

definition minRate :: "(number, 'a) RateFields_scheme list \<Rightarrow> number" where
  "minRate data =
     Math_floor (num_mul (Math_min (map buying_rate data @ map selling_rate data))
                         (number_for (998 / 1000)))"

definition maxRate :: "(number, 'a) RateFields_scheme list \<Rightarrow> number" where
  "maxRate data =
     Math_ceil (num_mul (Math_max (map buying_rate data @ map selling_rate data))
                        (number_for (1002 / 1000)))"

record LocalizedData = "number RateFields" +
  formattedTime_shown :: jsstring

definition localizedData :: "language \<Rightarrow> ExchangeRateData list \<Rightarrow> LocalizedData list" where
  "localizedData language data =
     map (\<lambda>item. \<lparr> buying_rate = buying_rate item, selling_rate = selling_rate item,
                   timestamp = timestamp item,
                   formattedTime_shown =
                     (case language of En \<Rightarrow> en (formattedTime item)
                                     | Zh \<Rightarrow> zh (formattedTime item)) \<rparr>)
         data"

text \<open>
  What the component renders: the error panel with its message, or the chart with the
  domain of its value axis, its rows and the language of its labels.
\<close>

record chart =
  y_domain :: "number \<times> number"
  rows :: "LocalizedData list"
  labels :: language

datatype view = ErrorPanel jsstring | Chart chart

text \<open>
  The component is a function of its props and of the language it holds as state.
  \<^verbatim>\<open>if (error)\<close>: \<^verbatim>\<open>null\<close> and the empty string are falsy.
\<close>

definition CurrencyExchangeGraph :: "PageProps \<Rightarrow> language \<Rightarrow> view" where
  "CurrencyExchangeGraph props language =
     (case error props of
        Some message \<Rightarrow>
          if message \<noteq> [] then ErrorPanel message
          else Chart \<lparr> y_domain = (minRate (exchangeData props), maxRate (exchangeData props)),
                       rows = localizedData language (exchangeData props),
                       labels = language \<rparr>
      | None \<Rightarrow>
          Chart \<lparr> y_domain = (minRate (exchangeData props), maxRate (exchangeData props)),
                  rows = localizedData language (exchangeData props),
                  labels = language \<rparr>)"

section \<open>The single-language page\<close>

text \<open>
  The second source file is the same page without the language toggle: its
  \<^verbatim>\<open>formattedTime\<close> is one string, the English display time. Its domain calculation is
  \<open>minRate\<close> and \<open>maxRate\<close> above, word for word.
\<close>

record ExchangeRateData_single = "number RateFields" +
  formattedTime_single :: jsstring

record PageProps_single =
  exchangeData_single :: "ExchangeRateData_single list"
  error_single :: "jsstring option"

definition format_item_single :: "host \<Rightarrow> RawRateRecord \<Rightarrow> ExchangeRateData_single" where
  "format_item_single h item =
     (let date = Date_parse h (timestamp item);
          month = toLocaleString_month_short h date;
          day = padStart 2 (cu CHR ''0'') (toString (getDate h date));
          hours = padStart 2 (cu CHR ''0'') (toString (getHours h date));
          minutes = padStart 2 (cu CHR ''0'') (toString (getMinutes h date))
      in \<lparr> buying_rate = parseFloat (buying_rate item),
           selling_rate = parseFloat (selling_rate item),
           timestamp = timestamp item,
           formattedTime_single =
             month @ ascii ''-'' @ day @ ascii '' '' @ hours @ ascii '':'' @ minutes \<rparr>)"

fun map_items_single ::
  "host \<Rightarrow> RawRateRecord option list \<Rightarrow> js_error + ExchangeRateData_single list" where
  "map_items_single h [] = Inr []"
| "map_items_single h (None # rest) = Inl TypeError"
| "map_items_single h (Some item # rest) =
     (case map_items_single h rest of
        Inl e \<Rightarrow> Inl e
      | Inr out \<Rightarrow> Inr (format_item_single h item # out))"

definition formattedData_single ::
  "host \<Rightarrow> RawRateRecord option list \<Rightarrow> js_error + ExchangeRateData_single list" where
  "formattedData_single h data =
     (case map_items_single h data of
        Inl e \<Rightarrow> Inl e
      | Inr out \<Rightarrow> Inr (reverse out))"

definition try_block_single ::
  "host \<Rightarrow> fetch_result \<Rightarrow> js_error + ExchangeRateData_single list" where
  "try_block_single h fetched =
     (case fetched of
        Rejected \<Rightarrow> Inl FetchFailed
      | Resolved response \<Rightarrow>
          if \<not> ok response then
            Inl (Error (ascii ''API request failed with status '' @ decimal (status response)))
          else
            (case json response of
               None \<Rightarrow> Inl SyntaxError
             | Some NotAnArray \<Rightarrow> Inl TypeError
             | Some (Array data) \<Rightarrow> formattedData_single h data))"

definition getServerSideProps_single :: "host \<Rightarrow> fetch_result \<Rightarrow> PageProps_single" where
  "getServerSideProps_single h fetched =
     (case try_block_single h fetched of
        Inr data \<Rightarrow> \<lparr> exchangeData_single = data, error_single = None \<rparr>
      | Inl err \<Rightarrow>
          \<lparr> exchangeData_single = [],
            error_single =
              Some (ascii ''Failed to fetch exchange rate data. Please try again later.'') \<rparr>)"

text \<open>What the single-language page keeps of a row of the two-language page.\<close>

definition english_only :: "ExchangeRateData \<Rightarrow> ExchangeRateData_single" where
  "english_only item =
     \<lparr> buying_rate = buying_rate item, selling_rate = selling_rate item,
       timestamp = timestamp item, formattedTime_single = en (formattedTime item) \<rparr>"

section \<open>Notions of the specification\<close>

text \<open>
  Timestamps are compared by the instants they denote: \<open>not_after h a b\<close> holds when both
  strings are dates for the host and the instant of \<open>a\<close> is not later than that of \<open>b\<close>.
  A list is chronological when every timestamp is not after the ones that follow it, and
  newest first when it is so read backwards.
\<close>

definition not_after :: "host \<Rightarrow> jsstring \<Rightarrow> jsstring \<Rightarrow> bool" where
  "not_after h a b =
     (case (Date_parse h a, Date_parse h b) of (Some x, Some y) \<Rightarrow> x \<le> y | _ \<Rightarrow> False)"

definition chronological :: "host \<Rightarrow> jsstring list \<Rightarrow> bool" where
  "chronological h ts = sorted_wrt (not_after h) ts"

definition newest_first :: "host \<Rightarrow> jsstring list \<Rightarrow> bool" where
  "newest_first h ts = sorted_wrt (\<lambda>a b. not_after h b a) ts"

text \<open>
  \<^verbatim>\<open>x <= y\<close> on Numbers, and the pool of a batch: its buying rates and its selling rates
  together.
\<close>

definition num_le :: "number \<Rightarrow> number \<Rightarrow> bool" where
  "num_le x y = (x \<noteq> NaN \<and> y \<noteq> NaN \<and> \<not> num_lt y x)"

definition pool :: "(number, 'a) RateFields_scheme list \<Rightarrow> number list" where
  "pool data = map buying_rate data @ map selling_rate data"

text \<open>
  A positive rate: a finite Number above zero. A finite Number is a rational that rounding
  leaves as it is.
\<close>

definition positive_rate :: "number \<Rightarrow> bool" where
  "positive_rate r = (case r of Fin q \<Rightarrow> 0 < q \<and> number_for q = Fin q | _ \<Rightarrow> False)"

text \<open>A raw rate field that \<^verbatim>\<open>parseFloat\<close> turns into a positive rate.\<close>

definition parses_positive :: "rate_field \<Rightarrow> bool" where
  "parses_positive f =
     (case f of
        RateString s \<Rightarrow> (case parseFloat_string s of Fin q \<Rightarrow> 0 < q | _ \<Rightarrow> False)
      | RateNumber n \<Rightarrow> positive_rate n)"

text \<open>A string is numeric for \<^verbatim>\<open>parseFloat\<close> when it starts, after white space, with a literal.\<close>

definition has_numeric_prefix :: "jsstring \<Rightarrow> bool" where
  "has_numeric_prefix s = (str_decimal_literal (dropWhile is_white_space s) \<noteq> None)"

text \<open>Two hosts: one whose local time is UTC, one eight hours ahead (Asia/Shanghai).\<close>

definition host_utc :: host where
  "host_utc = \<lparr> LocalTZA = (\<lambda>t. 0), impl_parse = (\<lambda>s. None) \<rparr>"

definition host_shanghai :: host where
  "host_shanghai = \<lparr> LocalTZA = (\<lambda>t. 28800000), impl_parse = (\<lambda>s. None) \<rparr>"

text \<open>The raw record of the specification's example.\<close>

definition example_record :: RawRateRecord where
  "example_record =
     \<lparr> buying_rate = RateString (ascii ''4.62''), selling_rate = RateString (ascii ''4.88''),
       timestamp = ascii ''2024-03-01T09:05:00Z'' \<rparr>"

text \<open>
  The batch of the specification's example: buying rates 4.60 and 4.65, selling rates 4.85
  and 4.90.
\<close>

definition rate_batch :: "ExchangeRateData list" where
  "rate_batch =
     [\<lparr> buying_rate = number_for (460 / 100), selling_rate = number_for (485 / 100),
        timestamp = ascii ''2024-03-01T09:05:00Z'',
        formattedTime =
          \<lparr> en = ascii ''Mar-01 09:05'',
            zh = ascii ''3'' @ [0x6708] @ ascii ''1'' @ [0x65E5] @ ascii '' 09:05'' \<rparr> \<rparr>,
      \<lparr> buying_rate = number_for (465 / 100), selling_rate = number_for (490 / 100),
        timestamp = ascii ''2024-03-01T10:05:00Z'',
        formattedTime =
          \<lparr> en = ascii ''Mar-01 10:05'',
            zh = ascii ''3'' @ [0x6708] @ ascii ''1'' @ [0x65E5] @ ascii '' 10:05'' \<rparr> \<rparr>]"

text \<open>
  What \<^verbatim>\<open>getServerSideProps\<close> returns when the service sends one record with the rates
  \<^verbatim>\<open>"Infinity"\<close>.
\<close>

definition infinite_rates_data :: "ExchangeRateData list" where
  "infinite_rates_data =
     exchangeData (getServerSideProps host_utc
       (Resolved \<lparr> status = 200, json = Some (Array
          [Some \<lparr> buying_rate = RateString (ascii ''Infinity''),
                  selling_rate = RateString (ascii ''Infinity''),
                  timestamp = ascii ''2024-03-01T09:05:00Z'' \<rparr>]) \<rparr>))"

text \<open>
  What \<^verbatim>\<open>getServerSideProps\<close> returns when the service sends one record whose buying rate
  is \<^verbatim>\<open>"N/A"\<close> and whose selling rate is \<^verbatim>\<open>"4.88"\<close>.
\<close>

definition nan_rate_data :: "ExchangeRateData list" where
  "nan_rate_data =
     exchangeData (getServerSideProps host_utc
       (Resolved \<lparr> status = 200, json = Some (Array
          [Some \<lparr> buying_rate = RateString (ascii ''N/A''),
                  selling_rate = RateString (ascii ''4.88''),
                  timestamp = ascii ''2024-03-01T09:05:00Z'' \<rparr>]) \<rparr>))"

text \<open>A batch whose only rate is the Number nearest to 3.006012024048096.\<close>

definition rounded_rate_batch :: "ExchangeRateData list" where
  "rounded_rate_batch =
     [\<lparr> buying_rate = number_for (3006012024048096 / 1000000000000000),
        selling_rate = number_for (3006012024048096 / 1000000000000000),
        timestamp = ascii ''2024-03-01T09:05:00Z'',
        formattedTime =
          \<lparr> en = ascii ''Mar-01 09:05'',
            zh = ascii ''3'' @ [0x6708] @ ascii ''1'' @ [0x65E5] @ ascii '' 09:05'' \<rparr> \<rparr>]"

section \<open>Facts about the runtime model\<close>

lemma powi_pos: "0 < (2::rat) powi k"
  by (simp add: zero_less_power_int)

lemma bitlen_powi_bounds:
  assumes "0 < (p::int)"
  shows "(2::rat) powi (bitlen p - 1) \<le> of_int p" and "of_int p < (2::rat) powi (bitlen p)"
proof -
  from bitlen_bounds[OF assms]
  have a: "2 ^ nat (bitlen p - 1) \<le> p" and b: "p < 2 ^ nat (bitlen p)"
    by auto
  have ge1: "1 \<le> bitlen p" using assms by (simp add: bitlen_alt_def)
  have "(of_int (2 ^ nat (bitlen p - 1)) :: rat) \<le> of_int p"
    using a by (simp only: of_int_le_iff)
  then show "(2::rat) powi (bitlen p - 1) \<le> of_int p"
    using ge1 by (simp add: power_int_nonneg_exp)
  have "(of_int p :: rat) < of_int (2 ^ nat (bitlen p))"
    using b by (simp only: of_int_less_iff)
  then show "of_int p < (2::rat) powi (bitlen p)"
    using ge1 by (simp add: power_int_nonneg_exp)
qed

text \<open>\<open>ilog2\<close> is the binary exponent.\<close>

lemma ilog2_bounds:
  assumes "0 < a"
  shows "2 powi (ilog2 a) \<le> a" and "a < 2 powi (ilog2 a + 1)"
proof -
  obtain p d where q: "quotient_of a = (p, d)" by (cases "quotient_of a")
  have d: "0 < d" using q by (rule quotient_of_denom_pos)
  have a: "a = of_int p / of_int d" using q by (rule quotient_of_div)
  have p: "0 < p" using assms d a by (simp add: zero_less_divide_iff)
  define k where "k = bitlen p - bitlen d"
  have dr: "0 < (of_int d :: rat)" using d by simp
  have up: "a < 2 powi (k + 1)"
  proof -
    have "of_int p < (2::rat) powi (bitlen p)" by (rule bitlen_powi_bounds[OF p])
    also have "\<dots> = 2 powi (k + 1) * 2 powi (bitlen d - 1)"
      by (simp add: k_def flip: power_int_add)
    also have "\<dots> \<le> 2 powi (k + 1) * of_int d"
      using bitlen_powi_bounds(1)[OF d] by simp
    finally show ?thesis using dr by (simp add: a pos_divide_less_eq)
  qed
  have lo: "2 powi (k - 1) \<le> a"
  proof -
    have "2 powi (k - 1) * of_int d \<le> 2 powi (k - 1) * (2::rat) powi (bitlen d)"
      using bitlen_powi_bounds(2)[OF d] by simp
    also have "\<dots> = 2 powi (bitlen p - 1)"
      by (simp add: k_def flip: power_int_add)
    also have "\<dots> \<le> of_int p" by (rule bitlen_powi_bounds[OF p])
    finally show ?thesis using dr by (simp add: a pos_le_divide_eq)
  qed
  have il: "ilog2 a = (if 2 powi k \<le> a then k else k - 1)"
    by (simp add: ilog2_def q k_def)
  show "2 powi (ilog2 a) \<le> a" using lo by (simp add: il)
  show "a < 2 powi (ilog2 a + 1)" using up by (simp add: il)
qed

lemma ilog2_unique:
  assumes "2 powi e \<le> a" and "a < 2 powi (e + 1)"
  shows "ilog2 a = e"
proof -
  have pos: "0 < a" using assms(1) powi_pos[of e] by linarith
  have "ilog2 a < e + 1"
  proof (rule ccontr)
    assume "\<not> ilog2 a < e + 1"
    then have "(2::rat) powi (e + 1) \<le> 2 powi (ilog2 a)" by (simp add: power_int_increasing)
    with ilog2_bounds(1)[OF pos] assms(2) show False by simp
  qed
  moreover have "e < ilog2 a + 1"
  proof (rule ccontr)
    assume "\<not> e < ilog2 a + 1"
    then have "(2::rat) powi (ilog2 a + 1) \<le> 2 powi e" by (simp add: power_int_increasing)
    with ilog2_bounds(2)[OF pos] assms(1) show False by simp
  qed
  ultimately show ?thesis by simp
qed

lemma round_half_even_upper: "of_int (round_half_even x) \<le> x + 1 / 2"
  unfolding round_half_even_def Let_def by (auto simp: not_less) linarith+

lemma round_half_even_lower: "x - 1 / 2 \<le> of_int (round_half_even x)"
  unfolding round_half_even_def Let_def by (auto simp: not_less) linarith+

lemma round_half_even_nearest:
  assumes "\<bar>x - of_int n\<bar> < 1 / 2"
  shows "round_half_even x = n"
proof -
  have "of_int (round_half_even x) < (of_int n :: rat) + 1"
    using round_half_even_upper[of x] assms by linarith
  moreover have "(of_int n :: rat) - 1 < of_int (round_half_even x)"
    using round_half_even_lower[of x] assms by linarith
  ultimately have "round_half_even x < n + 1" "n - 1 < round_half_even x"
    by (metis of_int_less_iff of_int_add of_int_1, metis of_int_less_iff of_int_diff of_int_1)
  then show ?thesis by simp
qed

text \<open>
  A rounding is checked from its exponent \<open>e\<close> and its integer significand \<open>n\<close>: the
  scaled argument lies within a half of \<open>n\<close>.
\<close>

lemma number_for_nearest:
  assumes "2 powi e \<le> x" and "x < 2 powi (e + 1)" and "- 1022 \<le> e"
    and "\<bar>x / 2 powi (e - 52) - of_int n\<bar> < 1 / 2"
    and "q = of_int n * 2 powi (e - 52)" and "q < 2 ^ 1024"
  shows "number_for x = Fin q"
proof -
  have pos: "0 < x" using assms(1) powi_pos[of e] by linarith
  have e: "spacing x = 2 powi (e - 52)"
    using ilog2_unique[OF assms(1,2)] assms(3) by (simp add: spacing_def)
  have n: "round_half_even (x / 2 powi (e - 52)) = n"
    by (rule round_half_even_nearest[OF assms(4)])
  have "(2::rat) powi 52 = 2 powi e / 2 powi (e - 52)" by (simp flip: power_int_diff)
  also have "\<dots> \<le> x / 2 powi (e - 52)" using assms(1) by (simp add: divide_right_mono)
  finally have "(2::rat) powi 52 \<le> x / 2 powi (e - 52)" .
  moreover have "(1::rat) \<le> 2 powi 52" by simp
  ultimately have "0 < (of_int n :: rat)" using assms(4) by linarith
  then have "q \<noteq> 0" using assms(5) powi_pos[of "e - 52"] by simp
  then show ?thesis using pos assms(5,6) by (simp add: number_for_def e n Let_def)
qed

subsection \<open>The error of a rounding\<close>

lemma spacing_pos: "0 < spacing a"
  by (simp add: spacing_def powi_pos)

lemma spacing_ge: "2 powi (- 1074) \<le> spacing a"
  unfolding spacing_def by (rule power_int_increasing) simp_all

lemma spacing_le:
  assumes "0 < a"
  shows "spacing a \<le> max (a / 2 ^ 52) (2 powi (- 1074))"
proof (cases "- 1022 \<le> ilog2 a")
  case True
  then have "spacing a = 2 powi (ilog2 a) / 2 ^ 52"
    by (simp add: spacing_def max_def power_int_diff)
  also have "\<dots> \<le> a / 2 ^ 52"
    using ilog2_bounds(1)[OF assms] by (intro divide_right_mono) simp_all
  finally show ?thesis by simp
next
  case False
  then have "spacing a = 2 powi (- 1074)" by (simp add: spacing_def max_def)
  then show ?thesis by simp
qed

lemma spacing_le_top:
  assumes "0 < a" and "a < 2 powi 1024"
  shows "spacing a \<le> 2 powi 971"
proof -
  have "ilog2 a < 1024"
  proof (rule ccontr)
    assume "\<not> ilog2 a < 1024"
    then have "(2::rat) powi 1024 \<le> 2 powi (ilog2 a)" by (intro power_int_increasing) simp_all
    with ilog2_bounds(1)[OF assms(1)] assms(2) show False by linarith
  qed
  then show ?thesis unfolding spacing_def by (intro power_int_increasing) simp_all
qed

lemma number_for_pos:
  assumes "0 < x"
  shows "number_for x =
     (if 2 ^ 1024 \<le> of_int (round_half_even (x / spacing x)) * spacing x then PosInf
      else Fin (of_int (round_half_even (x / spacing x)) * spacing x))"
  using assms by (simp add: number_for_def Let_def)

lemma rounded_upper:
  "of_int (round_half_even (x / spacing x)) * spacing x \<le> x + spacing x / 2"
proof -
  have "of_int (round_half_even (x / spacing x)) * spacing x \<le> (x / spacing x + 1 / 2) * spacing x"
    using round_half_even_upper[of "x / spacing x"] spacing_pos[of x]
    by (intro mult_right_mono) simp_all
  also have "\<dots> = x + spacing x / 2"
    using spacing_pos[of x] by (simp add: field_simps)
  finally show ?thesis .
qed

lemma rounded_lower:
  "x - spacing x / 2 \<le> of_int (round_half_even (x / spacing x)) * spacing x"
proof -
  have "(x / spacing x - 1 / 2) * spacing x \<le> of_int (round_half_even (x / spacing x)) * spacing x"
    using round_half_even_lower[of "x / spacing x"] spacing_pos[of x]
    by (intro mult_right_mono) simp_all
  moreover have "(x / spacing x - 1 / 2) * spacing x = x - spacing x / 2"
    using spacing_pos[of x] by (simp add: field_simps)
  ultimately show ?thesis by simp
qed

lemma rounded_nonneg:
  assumes "0 < x"
  shows "0 \<le> of_int (round_half_even (x / spacing x)) * spacing x"
proof -
  have "0 < x / spacing x" using assms spacing_pos[of x] by simp
  then have "(- 1 :: rat) < of_int (round_half_even (x / spacing x))"
    using round_half_even_lower[of "x / spacing x"] by linarith
  then have "- 1 < round_half_even (x / spacing x)"
    by (metis of_int_less_iff of_int_minus of_int_1)
  then have "(0::rat) \<le> of_int (round_half_even (x / spacing x))" by simp
  then show ?thesis using spacing_pos[of x] by simp
qed

text \<open>A positive finite Number is at least \<open>2^-1074\<close> and below \<open>2^1024\<close>.\<close>

lemma representable_bounds:
  assumes "0 < q" and "number_for q = Fin q"
  shows "2 powi (- 1074) \<le> q" and "q < 2 ^ 1024"
proof -
  let ?n = "round_half_even (q / spacing q)"
  from assms have lt: "\<not> 2 ^ 1024 \<le> of_int ?n * spacing q" and q: "q = of_int ?n * spacing q"
    by (auto simp: number_for_pos split: if_splits)
  from lt q show "q < 2 ^ 1024" by simp
  have "0 < (of_int ?n :: rat)"
    using assms(1) q spacing_pos[of q] by (metis zero_less_mult_pos2)
  then have "1 \<le> ?n" by simp
  then have "(1::rat) \<le> of_int ?n" by (metis of_int_le_iff of_int_1)
  then have "spacing q \<le> of_int ?n * spacing q"
    using spacing_pos[of q] by (metis mult_le_cancel_right1 not_less order_less_imp_le)
  with spacing_ge[of q] q show "2 powi (- 1074) \<le> q" by linarith
qed


subsection \<open>Finite results of a rounding are Numbers\<close>

lemma ilog2_less:
  assumes "0 < a" and "a < 2 powi k"
  shows "ilog2 a < k"
proof (rule ccontr)
  assume "\<not> ilog2 a < k"
  then have "(2::rat) powi k \<le> 2 powi (ilog2 a)" by (intro power_int_increasing) simp_all
  with ilog2_bounds(1)[OF assms(1)] assms(2) show False by linarith
qed

lemma spacing_subnormal:
  assumes "0 < a" and "a < 2 powi (- 1022)"
  shows "spacing a = 2 powi (- 1074)"
  using ilog2_less[OF assms] by (simp add: spacing_def max_def)

lemma spacing_normal:
  assumes "2 powi e \<le> a" and "a < 2 powi (e + 1)" and "- 1022 \<le> e"
  shows "spacing a = 2 powi (e - 52)"
  using ilog2_unique[OF assms(1,2)] assms(3) by (simp add: spacing_def)

lemma round_half_even_of_int: "round_half_even (of_int n) = n"
  by (simp add: round_half_even_def)

text \<open>A value that is an integer multiple of its own spacing is a Number.\<close>

lemma number_for_multiple:
  assumes "0 < q" and "q = of_int n * spacing q" and "q < 2 ^ 1024"
  shows "number_for q = Fin q"
proof -
  have "q / spacing q = of_int n"
    using assms(2) spacing_pos[of q] by (simp add: field_simps)
  then have "of_int (round_half_even (q / spacing q)) * spacing q = q"
    using assms(2) by (simp add: round_half_even_of_int)
  then show ?thesis using assms(1,3) by (simp add: number_for_pos)
qed

text \<open>Rounding twice is rounding once: every finite result of a rounding is a Number.\<close>

lemma number_for_idem_pos:
  assumes x: "0 < x" and q: "number_for x = Fin q"
  shows "number_for q = Fin q"
proof -
  define e where "e = max (ilog2 x) (- 1022)"
  define u :: rat where "u = 2 powi (e - 52)"
  define n where "n = round_half_even (x / u)"
  have su: "spacing x = u" by (simp add: spacing_def e_def u_def)
  have u: "0 < u" by (simp add: u_def powi_pos)
  from q have qn: "q = of_int n * u" and top: "q < 2 ^ 1024"
    by (auto simp: number_for_pos[OF x] su n_def split: if_splits)
  have e_low: "- 1022 \<le> e" by (simp add: e_def)
  have xu_upper: "x / u < 2 ^ 53"
  proof -
    have "x < 2 powi (ilog2 x + 1)" by (rule ilog2_bounds(2)[OF x])
    also have "\<dots> \<le> 2 powi (e + 1)" by (intro power_int_increasing) (simp_all add: e_def)
    also have "\<dots> = 2 ^ 53 * u" by (simp add: u_def power_int_diff power_int_add)
    finally show ?thesis using u by (simp add: field_simps)
  qed
  have n_upper: "n \<le> 2 ^ 53"
  proof -
    have "(of_int n :: rat) \<le> x / u + 1 / 2" unfolding n_def by (rule round_half_even_upper)
    with xu_upper have "(of_int n :: rat) < of_int (2 ^ 53 + 1)" by simp
    then have "n < 2 ^ 53 + 1" by (simp only: of_int_less_iff)
    then show ?thesis by simp
  qed
  have n_nonneg: "0 \<le> n"
  proof -
    have "0 \<le> of_int n * u" using rounded_nonneg[OF x] by (simp add: su n_def)
    then have "(0::rat) \<le> of_int n" using u by (simp add: zero_le_mult_iff)
    then show ?thesis by simp
  qed
  show ?thesis
  proof (cases "n = 0")
    case True
    then show ?thesis by (simp add: qn number_for_def)
  next
    case False
    with n_nonneg have n_pos: "0 < n" by simp
    then have q_pos: "0 < q" using u by (simp add: qn)
    have "spacing q = u \<or> (n = 2 ^ 53 \<and> spacing q = 2 * u)"
    proof (cases "n = 2 ^ 53")
      case True
      then have "q = 2 powi (e + 1)" by (simp add: qn u_def power_int_diff power_int_add)
      then have "spacing q = 2 powi (e + 1 - 52)"
        using e_low by (intro spacing_normal) (simp_all add: power_int_add)
      also have "\<dots> = 2 * u" by (simp add: u_def power_int_diff power_int_add)
      finally show ?thesis using True by simp
    next
      case False
      with n_upper have n_lt: "n < 2 ^ 53" by simp
      then have "(of_int n :: rat) < of_int (2 ^ 53)" by (simp only: of_int_less_iff)
      then have "q < 2 ^ 53 * u" using u by (simp add: qn)
      also have "2 ^ 53 * u = 2 powi (e + 1)" by (simp add: u_def power_int_diff power_int_add)
      finally have q_upper: "q < 2 powi (e + 1)" .
      show ?thesis
      proof (cases "2 powi e \<le> q")
        case True
        then have "spacing q = u" unfolding u_def using q_upper e_low by (rule spacing_normal)
        then show ?thesis by simp
      next
        case below: False
        have "e = - 1022"
        proof (rule ccontr)
          assume "e \<noteq> - 1022"
          then have ex: "e = ilog2 x" by (simp add: e_def max_def split: if_splits)
          have "2 powi e \<le> x" unfolding ex by (rule ilog2_bounds(1)[OF x])
          then have "2 powi e / u \<le> x / u" using u by (simp add: divide_right_mono)
          moreover have "2 powi e / u = 2 ^ 52" by (simp add: u_def power_int_diff)
          ultimately have "(2 ^ 52 :: rat) \<le> x / u" by simp
          moreover have "x / u - 1 / 2 \<le> of_int n" unfolding n_def by (rule round_half_even_lower)
          ultimately have "(of_int (2 ^ 52 - 1) :: rat) < of_int n" by simp
          then have "2 ^ 52 - 1 < n" by (simp only: of_int_less_iff)
          then have "(of_int (2 ^ 52) :: rat) \<le> of_int n" by simp
          then have "2 ^ 52 * u \<le> q" using u by (simp add: qn)
          moreover have "2 ^ 52 * u = 2 powi e" by (simp add: u_def power_int_diff)
          ultimately show False using below by simp
        qed
        with below have "q < 2 powi (- 1022)" by simp
        then have "spacing q = 2 powi (- 1074)" by (rule spacing_subnormal[OF q_pos])
        then show ?thesis using \<open>e = - 1022\<close> by (simp add: u_def)
      qed
    qed
    then show ?thesis
    proof
      assume "spacing q = u"
      then have "q = of_int n * spacing q" by (simp add: qn)
      with q_pos top show ?thesis by (intro number_for_multiple)
    next
      assume h: "n = 2 ^ 53 \<and> spacing q = 2 * u"
      then have "of_int n * u = of_int (2 ^ 52) * (2 * u)" by simp
      with h have "q = of_int (2 ^ 52) * spacing q" by (simp only: qn)
      with q_pos top show ?thesis by (intro number_for_multiple)
    qed
  qed
qed

lemma number_for_minus:
  assumes "x < 0" and "number_for x = Fin q"
  shows "q < 0 \<and> number_for (- x) = Fin (- q)"
proof -
  define r where "r = of_int (round_half_even (- x / spacing (- x))) * spacing (- x)"
  have pos: "0 < - x" using assms(1) by simp
  have r: "0 \<le> r" unfolding r_def by (rule rounded_nonneg[OF pos])
  have "number_for x =
      (if 2 ^ 1024 \<le> r then NegInf else if r = 0 then NegZero else Fin (- r))"
    using assms(1) by (simp add: number_for_def Let_def r_def)
  with assms(2) have q: "q = - r" and nz: "r \<noteq> 0" and top: "\<not> 2 ^ 1024 \<le> r"
    by (auto split: if_splits)
  have "number_for (- x) = Fin r" using top by (simp add: number_for_pos[OF pos] r_def)
  with q r nz show ?thesis by simp
qed

lemma number_for_idem:
  assumes "number_for x = Fin q"
  shows "number_for q = Fin q"
proof -
  consider "x = 0" | "0 < x" | "x < 0" by linarith
  then show ?thesis
  proof cases
    case 1
    with assms show ?thesis by (simp add: number_for_def)
  next
    case 2
    then show ?thesis using assms by (rule number_for_idem_pos)
  next
    case 3
    from number_for_minus[OF 3 assms] have q: "q < 0" and m: "number_for (- x) = Fin (- q)"
      by simp_all
    have "0 < - x" using 3 by simp
    then have "number_for (- q) = Fin (- q)" using m by (rule number_for_idem_pos)
    then show ?thesis using q by (auto simp: number_for_def Let_def split: if_splits)
  qed
qed


lemma number_for_neg:
  assumes "number_for q = Fin q"
  shows "number_for (- q) = Fin (- q)"
proof -
  consider "q = 0" | "0 < q" | "q < 0" by linarith
  then show ?thesis
  proof cases
    case 1
    then show ?thesis by (simp add: number_for_def)
  next
    case 2
    with assms have "of_int (round_half_even (q / spacing q)) * spacing q = q"
      and "\<not> 2 ^ 1024 \<le> of_int (round_half_even (q / spacing q)) * spacing q"
      by (auto simp: number_for_pos split: if_splits)
    with 2 show ?thesis by (simp add: number_for_def Let_def)
  next
    case 3
    from number_for_minus[OF 3 assms] show ?thesis by simp
  qed
qed

text \<open>Every finite result of \<^verbatim>\<open>parseFloat\<close> on a string is a Number.\<close>

lemma unsigned_literal_Number:
  assumes "unsigned_literal s = Some (Fin q)"
  shows "number_for q = Fin q"
  using assms
  by (auto simp: unsigned_literal_def literal_value_def Let_def number_for_idem
      split: if_splits list.splits)

lemma parseFloat_string_Number:
  assumes "parseFloat_string s = Fin q"
  shows "number_for q = Fin q"
proof -
  obtain v where v: "str_decimal_literal (dropWhile is_white_space s) = Some v" and vq: "v = Fin q"
    using assms by (auto simp: parseFloat_string_def split: option.splits)
  then obtain t w where w: "unsigned_literal t = Some w" and cases: "v = w \<or> v = negate w"
    by (auto simp: str_decimal_literal_def split: list.splits if_splits)
  from cases show ?thesis
  proof
    assume "v = w"
    with w vq show ?thesis by (simp add: unsigned_literal_Number)
  next
    assume n: "v = negate w"
    show ?thesis
    proof (cases w)
      case (Fin p)
      with w have "number_for p = Fin p" by (simp add: unsigned_literal_Number)
      then have "number_for (- p) = Fin (- p)" by (rule number_for_neg)
      with n vq Fin show ?thesis by (auto split: if_splits)
    qed (use n vq in \<open>simp_all add: number_for_def\<close>)
  qed
qed

subsection \<open>Roundings used below\<close>

lemma literal_0998: "number_for (499 / 500) = Fin (4494592428115755 / 4503599627370496)"
  by (rule number_for_nearest[where e = "- 1" and n = 8989184856231510]) simp_all

lemma literal_1002: "number_for (501 / 500) = Fin (4512606826625237 / 4503599627370496)"
  by (rule number_for_nearest[where e = 0 and n = 4512606826625237]) simp_all

lemma number_460: "number_for (23 / 5) = Fin (2589569785738035 / 562949953421312)"
  by (rule number_for_nearest[where e = 2 and n = 5179139571476070]) simp_all

lemma number_465: "number_for (93 / 20) = Fin (2617717283409101 / 562949953421312)"
  by (rule number_for_nearest[where e = 2 and n = 5235434566818202]) simp_all

lemma number_485: "number_for (97 / 20) = Fin (2730307274093363 / 562949953421312)"
  by (rule number_for_nearest[where e = 2 and n = 5460614548186726]) simp_all

lemma number_490: "number_for (49 / 10) = Fin (2758454771764429 / 562949953421312)"
  by (rule number_for_nearest[where e = 2 and n = 5516909543528858]) simp_all

lemma product_460_0998: "number_for (11639060751055510153147086241425 / 2535301200456458802993406410752) = Fin (2584390646166559 / 562949953421312)"
  by (rule number_for_nearest[where e = 2 and n = 5168781292333118]) simp_all

lemma product_490_1002: "number_for (12447821834001122355526030294673 / 2535301200456458802993406410752) = Fin (1381985840653979 / 281474976710656)"
  by (rule number_for_nearest[where e = 2 and n = 5527943362615916]) simp_all

lemma number_460_fixed: "number_for (2589569785738035 / 562949953421312) = Fin (2589569785738035 / 562949953421312)"
  by (rule number_for_nearest[where e = 2 and n = 5179139571476070]) simp_all

lemma number_465_fixed: "number_for (2617717283409101 / 562949953421312) = Fin (2617717283409101 / 562949953421312)"
  by (rule number_for_nearest[where e = 2 and n = 5235434566818202]) simp_all

lemma number_485_fixed: "number_for (2730307274093363 / 562949953421312) = Fin (2730307274093363 / 562949953421312)"
  by (rule number_for_nearest[where e = 2 and n = 5460614548186726]) simp_all

lemma number_490_fixed: "number_for (2758454771764429 / 562949953421312) = Fin (2758454771764429 / 562949953421312)"
  by (rule number_for_nearest[where e = 2 and n = 5516909543528858]) simp_all

lemma number_462: "number_for (231 / 50) = Fin (5201657569612923 / 1125899906842624)"
  by (rule number_for_nearest[where e = 2 and n = 5201657569612923]) simp_all

lemma number_488: "number_for (122 / 25) = Fin (5494391545392005 / 1125899906842624)"
  by (rule number_for_nearest[where e = 2 and n = 5494391545392005]) simp_all

lemma number_3006: "number_for (93937875751503 / 31250000000000) = Fin (3384468657843559 / 1125899906842624)"
  by (rule number_for_nearest[where e = 1 and n = 6768937315687118]) simp_all

lemma product_3006_0998: "number_for (15211807202738752259459933172045 / 5070602400912917605986812821504) = Fin 3"
  by (rule number_for_nearest[where e = 1 and n = 6755399441055744]) simp_all

lemma product_488_0998: "number_for (24695050637022127258074991538775 / 5070602400912917605986812821504) = Fin (5483402762301221 / 1125899906842624)"
  by (rule number_for_nearest[where e = 2 and n = 5483402762301221]) simp_all

lemma product_488_1002: "number_for (24794028795887947495492391030185 / 5070602400912917605986812821504) = Fin (5505380328482789 / 1125899906842624)"
  by (rule number_for_nearest[where e = 2 and n = 5505380328482789]) simp_all

subsection \<open>The calendar\<close>

lemma year_search_spec:
  "DayFromYear y \<le> d \<Longrightarrow>
     DayFromYear (year_search d y) \<le> d \<and> d < DayFromYear (year_search d y + 1)"
proof (induction d y rule: year_search.induct)
  case (1 d y)
  show ?case
  proof (cases "DayFromYear (y + 1) \<le> d")
    case True
    with "1.IH" show ?thesis by (subst (1 2) year_search.simps) simp
  next
    case False
    with "1.prems" show ?thesis by (subst (1 2) year_search.simps) simp
  qed
qed

lemma div_lower:
  fixes x c :: int
  assumes "0 < c"
  shows "c * (x div c) \<le> x"
proof -
  have "c * (x div c) + x mod c = x" by (rule mult_div_mod_eq)
  moreover have "0 \<le> x mod c" using assms by (rule pos_mod_sign)
  ultimately show ?thesis by linarith
qed

lemma div_upper:
  fixes x c :: int
  assumes "0 < c"
  shows "x < c * (x div c) + c"
proof -
  have "c * (x div c) + x mod c = x" by (rule mult_div_mod_eq)
  moreover have "x mod c < c" using assms by (rule pos_mod_bound)
  ultimately show ?thesis by linarith
qed

lemma leap_days_linear:
  fixes k a b c :: int
  assumes "4 * a \<le> k + 1" and "k + 69 < 100 * b + 100" and "400 * c \<le> k + 369"
  shows "400 * (a - b + c) < 97 * k + 593"
proof -
  have "400 * a \<le> 100 * k + 100" using assms(1) by simp
  moreover have "4 * k + 276 < 400 * b + 400" using assms(2) by simp
  ultimately show ?thesis using assms(3) by simp
qed

lemma leap_days_bound:
  fixes k :: int
  shows "400 * ((k + 1) div 4 - (k + 69) div 100 + (k + 369) div 400) < 97 * k + 593"
proof (rule leap_days_linear)
  show "4 * ((k + 1) div 4) \<le> k + 1" by (rule div_lower) simp
  show "k + 69 < 100 * ((k + 69) div 100) + 100" by (rule div_upper) simp
  show "400 * ((k + 369) div 400) \<le> k + 369" by (rule div_lower) simp
qed

lemma DayFromYear_shift:
  "DayFromYear (1970 + k) = 365 * k + ((k + 1) div 4 - (k + 69) div 100 + (k + 369) div 400)"
proof -
  have "1970 + k - 1970 = k" "1970 + k - 1969 = k + 1" "1970 + k - 1901 = k + 69"
    "1970 + k - 1601 = k + 369" by simp_all
  then show ?thesis unfolding DayFromYear_def by (simp add: ac_simps)
qed

lemma start_year_nonneg:
  assumes "0 \<le> d"
  shows "DayFromYear (1970 + d div 366) \<le> d"
proof (cases "d div 366 = 0")
  case True
  then show ?thesis using assms by (simp add: DayFromYear_def)
next
  case False
  define k where "k = d div 366"
  define l where "l = (k + 1) div 4 - (k + 69) div 100 + (k + 369) div 400"
  have k: "366 * k \<le> d" unfolding k_def by (rule div_lower) simp
  have "0 \<le> k" unfolding k_def using assms by (simp add: pos_imp_zdiv_nonneg_iff)
  with False have k1: "1 \<le> k" unfolding k_def by simp
  have l: "400 * l < 97 * k + 593" unfolding l_def by (rule leap_days_bound)
  have "l \<le> k"
  proof (rule ccontr)
    assume "\<not> l \<le> k"
    then have "400 * (k + 1) \<le> 400 * l" by simp
    with l k1 show False by simp
  qed
  then have "365 * k + l \<le> d" using k by simp
  then show ?thesis unfolding DayFromYear_shift l_def k_def .
qed

lemma start_year_neg:
  assumes "d < 0"
  shows "DayFromYear (1970 + (d div 365 - 1)) \<le> d"
proof -
  define k where "k = d div 365 - 1"
  define l where "l = (k + 1) div 4 - (k + 69) div 100 + (k + 369) div 400"
  have "365 * (d div 365) \<le> d" by (rule div_lower) simp
  then have k: "365 * (k + 1) \<le> d" unfolding k_def by simp
  have "d div 365 < 0" using assms by (simp add: div_neg_pos_less0)
  then have k2: "k \<le> - 2" unfolding k_def by simp
  have l: "400 * l < 97 * k + 593" unfolding l_def by (rule leap_days_bound)
  have "l \<le> 0"
  proof (rule ccontr)
    assume "\<not> l \<le> 0"
    then have "400 \<le> 400 * l" by simp
    with l k2 show False by simp
  qed
  then have "365 * k + l \<le> d" using k by simp
  then show ?thesis unfolding DayFromYear_shift l_def k_def .
qed

text \<open>\<open>YearFromTime t\<close> is the year in which the day of \<open>t\<close> falls.\<close>

lemma YearFromTime_spec:
  "DayFromYear (YearFromTime t) \<le> Day t \<and> Day t < DayFromYear (YearFromTime t + 1)"
proof (cases "0 \<le> Day t")
  case True
  then have "YearFromTime t = year_search (Day t) (1970 + Day t div 366)"
    unfolding YearFromTime_def Let_def by (simp only: if_True)
  then show ?thesis using year_search_spec[OF start_year_nonneg[OF True]] by (simp only:)
next
  case False
  then have "YearFromTime t = year_search (Day t) (1970 + (Day t div 365 - 1))"
    unfolding YearFromTime_def Let_def by (simp only: if_False)
  moreover have "Day t < 0" using False by (simp only: not_le)
  ultimately show ?thesis using year_search_spec[OF start_year_neg] by (simp only:)
qed

subsection \<open>\<^verbatim>\<open>Math.min\<close> and \<^verbatim>\<open>Math.max\<close> pick the least and the greatest argument\<close>

lemma num_le_refl: "x \<noteq> NaN \<Longrightarrow> num_le x x"
  by (cases x) (simp_all add: num_le_def)

lemma num_le_trans: "num_le x y \<Longrightarrow> num_le y z \<Longrightarrow> num_le x z"
  by (cases x; cases y; cases z) (simp_all add: num_le_def)

lemma num_lt_imp_le: "num_lt x y \<Longrightarrow> num_le x y"
  by (cases x; cases y) (simp_all add: num_le_def)

lemma num_lt_not_NaN: "num_lt x y \<Longrightarrow> x \<noteq> NaN \<and> y \<noteq> NaN"
  by (cases x; cases y) simp_all

lemma min_loop_spec:
  assumes "NaN \<notin> set ns" and "lowest \<noteq> NaN"
  shows "(min_loop lowest ns = lowest \<or> min_loop lowest ns \<in> set ns)
       \<and> num_le (min_loop lowest ns) lowest
       \<and> (\<forall>x\<in>set ns. num_le (min_loop lowest ns) x)"
  using assms
proof (induction ns arbitrary: lowest)
  case Nil
  then show ?case by (simp add: num_le_refl)
next
  case (Cons n ns)
  then have n: "n \<noteq> NaN" and ns: "NaN \<notin> set ns" by auto
  show ?case
  proof (cases "n = NegZero \<and> lowest = Fin 0")
    case True
    have ih: "(min_loop NegZero ns = NegZero \<or> min_loop NegZero ns \<in> set ns)
       \<and> num_le (min_loop NegZero ns) NegZero
       \<and> (\<forall>x\<in>set ns. num_le (min_loop NegZero ns) x)"
      by (rule Cons.IH[OF ns]) simp
    have "num_le NegZero (Fin 0)" by (simp add: num_le_def)
    with ih have "num_le (min_loop NegZero ns) (Fin 0)" by (blast intro: num_le_trans)
    with ih True n show ?thesis by auto
  next
    case False
    show ?thesis
    proof (cases "num_lt n lowest")
      case True
      have ih: "(min_loop n ns = n \<or> min_loop n ns \<in> set ns)
         \<and> num_le (min_loop n ns) n \<and> (\<forall>x\<in>set ns. num_le (min_loop n ns) x)"
        by (rule Cons.IH[OF ns n])
      have "num_le n lowest" using True by (rule num_lt_imp_le)
      with ih have "num_le (min_loop n ns) lowest" by (blast intro: num_le_trans)
      with ih True False n show ?thesis by auto
    next
      case nlt: False
      have ih: "(min_loop lowest ns = lowest \<or> min_loop lowest ns \<in> set ns)
         \<and> num_le (min_loop lowest ns) lowest \<and> (\<forall>x\<in>set ns. num_le (min_loop lowest ns) x)"
        by (rule Cons.IH[OF ns Cons.prems(2)])
      have "num_le lowest n" using nlt n Cons.prems(2) by (simp add: num_le_def)
      with ih have "num_le (min_loop lowest ns) n" by (blast intro: num_le_trans)
      with ih nlt False n show ?thesis by auto
    qed
  qed
qed

lemma max_loop_spec:
  assumes "NaN \<notin> set ns" and "highest \<noteq> NaN"
  shows "(max_loop highest ns = highest \<or> max_loop highest ns \<in> set ns)
       \<and> num_le highest (max_loop highest ns)
       \<and> (\<forall>x\<in>set ns. num_le x (max_loop highest ns))"
  using assms
proof (induction ns arbitrary: highest)
  case Nil
  then show ?case by (simp add: num_le_refl)
next
  case (Cons n ns)
  then have n: "n \<noteq> NaN" and ns: "NaN \<notin> set ns" by auto
  show ?case
  proof (cases "n = Fin 0 \<and> highest = NegZero")
    case True
    have ih: "(max_loop (Fin 0) ns = Fin 0 \<or> max_loop (Fin 0) ns \<in> set ns)
       \<and> num_le (Fin 0) (max_loop (Fin 0) ns)
       \<and> (\<forall>x\<in>set ns. num_le x (max_loop (Fin 0) ns))"
      by (rule Cons.IH[OF ns]) simp
    have "num_le NegZero (Fin 0)" by (simp add: num_le_def)
    with ih have "num_le NegZero (max_loop (Fin 0) ns)" by (blast intro: num_le_trans)
    with ih True n show ?thesis by auto
  next
    case False
    show ?thesis
    proof (cases "num_lt highest n")
      case True
      have ih: "(max_loop n ns = n \<or> max_loop n ns \<in> set ns)
         \<and> num_le n (max_loop n ns) \<and> (\<forall>x\<in>set ns. num_le x (max_loop n ns))"
        by (rule Cons.IH[OF ns n])
      have "num_le highest n" using True by (rule num_lt_imp_le)
      with ih have "num_le highest (max_loop n ns)" by (blast intro: num_le_trans)
      with ih True False n show ?thesis by auto
    next
      case nlt: False
      have ih: "(max_loop highest ns = highest \<or> max_loop highest ns \<in> set ns)
         \<and> num_le highest (max_loop highest ns) \<and> (\<forall>x\<in>set ns. num_le x (max_loop highest ns))"
        by (rule Cons.IH[OF ns Cons.prems(2)])
      have "num_le n highest" using nlt n Cons.prems(2) by (simp add: num_le_def)
      with ih have "num_le n (max_loop highest ns)" by (blast intro: num_le_trans)
      with ih nlt False n show ?thesis by auto
    qed
  qed
qed

lemma num_le_PosInf: "num_le PosInf x \<Longrightarrow> x = PosInf"
  by (cases x) (simp_all add: num_le_def)

lemma num_le_NegInf: "num_le x NegInf \<Longrightarrow> x = NegInf"
  by (cases x) (simp_all add: num_le_def)

lemma Math_min_least:
  assumes "ns \<noteq> []" and "NaN \<notin> set ns"
  shows "Math_min ns \<in> set ns \<and> (\<forall>x\<in>set ns. num_le (Math_min ns) x)"
proof -
  from min_loop_spec[OF assms(2), of PosInf]
  have s: "Math_min ns = PosInf \<or> Math_min ns \<in> set ns"
    and le: "\<forall>x\<in>set ns. num_le (Math_min ns) x"
    by (simp_all add: Math_min_def)
  have "Math_min ns \<in> set ns"
  proof (cases "Math_min ns = PosInf")
    case True
    obtain x where x: "x \<in> set ns" using assms(1) by (cases ns) auto
    with le True have "x = PosInf" by (auto dest: num_le_PosInf)
    with x True show ?thesis by simp
  next
    case False
    with s show ?thesis by simp
  qed
  with le show ?thesis by simp
qed

lemma Math_max_greatest:
  assumes "ns \<noteq> []" and "NaN \<notin> set ns"
  shows "Math_max ns \<in> set ns \<and> (\<forall>x\<in>set ns. num_le x (Math_max ns))"
proof -
  from max_loop_spec[OF assms(2), of NegInf]
  have s: "Math_max ns = NegInf \<or> Math_max ns \<in> set ns"
    and le: "\<forall>x\<in>set ns. num_le x (Math_max ns)"
    by (simp_all add: Math_max_def)
  have "Math_max ns \<in> set ns"
  proof (cases "Math_max ns = NegInf")
    case True
    obtain x where x: "x \<in> set ns" using assms(1) by (cases ns) auto
    with le True have "x = NegInf" by (auto dest: num_le_NegInf)
    with x True show ?thesis by simp
  next
    case False
    with s show ?thesis by simp
  qed
  with le show ?thesis by simp
qed

section \<open>Facts about the transform step\<close>

lemma map_items_records: "map_items h (map Some raws) = Inr (map (format_item h) raws)"
  by (induction raws) simp_all

lemma formattedData_records:
  "formattedData h (map Some raws) = Inr (rev (map (format_item h) raws))"
  by (simp add: formattedData_def map_items_records reverse_def)

lemma timestamp_format_item: "timestamp (format_item h item) = timestamp item"
  by (simp add: format_item_def Let_def)

lemma buying_rate_format_item: "buying_rate (format_item h item) = parseFloat (buying_rate item)"
  by (simp add: format_item_def Let_def)

lemma selling_rate_format_item:
  "selling_rate (format_item h item) = parseFloat (selling_rate item)"
  by (simp add: format_item_def Let_def)

lemma parse_utc_example: "parse_utc (ascii ''2024-03-01T09:05:00Z'') = Some 1709283900000"
  by code_simp

lemma parse_utc_next_day: "parse_utc (ascii ''2024-03-02T09:05:00Z'') = Some 1709370300000"
  by code_simp

lemma decimal_500: "decimal 500 = ascii ''500''"
  by code_simp

lemma no_numeric_prefix_NaN: "\<not> has_numeric_prefix s \<Longrightarrow> parseFloat_string s = NaN"
  by (simp add: has_numeric_prefix_def parseFloat_string_def)

lemma try_block_records:
  assumes "ok r" and "json r = Some (Array (map Some raws))"
  shows "try_block h (Resolved r) = Inr (rev (map (format_item h) raws))"
  using assms by (simp add: try_block_def formattedData_records)

lemma not_white_space_letter: "\<not> is_white_space (cu CHR ''a'')" "\<not> is_white_space (cu CHR ''N'')"
  by (simp_all add: is_white_space_def cu_def)


lemma unsigned_literal_na: "unsigned_literal (ascii ''N/A'') = None"
  by (simp add: unsigned_literal_def ascii_def cu_def is_digit_def)


lemma str_decimal_literal_na: "str_decimal_literal (dropWhile is_white_space (ascii ''N/A'')) = None"
  using unsigned_literal_na not_white_space_letter
  by (simp add: str_decimal_literal_def ascii_def) (simp add: cu_def)


lemma na_no_prefix: "\<not> has_numeric_prefix (ascii ''N/A'')"
  by (simp add: has_numeric_prefix_def str_decimal_literal_na)

lemma fields_utc:
  "MonthFromTime 1709283900000 = 2" "DateFromTime 1709283900000 = 1"
  "HourFromTime 1709283900000 = 9" "MinFromTime 1709283900000 = 5"
  by code_simp+

lemma fields_shanghai:
  "MonthFromTime 1709312700000 = 2" "DateFromTime 1709312700000 = 1"
  "HourFromTime 1709312700000 = 17" "MinFromTime 1709312700000 = 5"
  by code_simp+

lemma decimals:
  "decimal 1 = ascii ''1''" "decimal 3 = ascii ''3''" "decimal 5 = ascii ''5''"
  "decimal 9 = ascii ''9''" "decimal 17 = ascii ''17''"
  by code_simp+

lemma padStart_ascii:
  "padStart 2 (cu CHR ''0'') (ascii ''1'') = ascii ''01''"
  "padStart 2 (cu CHR ''0'') (ascii ''5'') = ascii ''05''"
  "padStart 2 (cu CHR ''0'') (ascii ''9'') = ascii ''09''"
  "padStart 2 (cu CHR ''0'') (ascii ''17'') = ascii ''17''"
  by (simp_all add: padStart_def ascii_def)

lemma month_short_2: "month_short 2 = ascii ''Mar''"
  by (simp add: month_short_def)

text \<open>The display times of a record whose timestamp is a date, from its local time.\<close>

lemma formattedTime_of_date:
  assumes "Date_parse h (timestamp item) = Some t"
  shows "formattedTime (format_item h item) =
     \<lparr> en = month_short (MonthFromTime (LocalTime h t)) @ ascii ''-''
            @ padStart 2 (cu CHR ''0'') (int_toString (DateFromTime (LocalTime h t))) @ ascii '' ''
            @ padStart 2 (cu CHR ''0'') (int_toString (HourFromTime (LocalTime h t))) @ ascii '':''
            @ padStart 2 (cu CHR ''0'') (int_toString (MinFromTime (LocalTime h t))),
       zh = int_toString (MonthFromTime (LocalTime h t) + 1) @ [0x6708]
            @ int_toString (DateFromTime (LocalTime h t)) @ [0x65E5] @ ascii '' ''
            @ padStart 2 (cu CHR ''0'') (int_toString (HourFromTime (LocalTime h t))) @ ascii '':''
            @ padStart 2 (cu CHR ''0'') (int_toString (MinFromTime (LocalTime h t))) \<rparr>"
  by (simp add: format_item_def Let_def assms getDate_def getMonth_def getHours_def
      getMinutes_def toString_def toLocaleString_month_short_def)

lemma example_record_date: "Date_parse h (timestamp example_record) = Some 1709283900000"
  by (simp add: example_record_def Date_parse_def parse_utc_example)

lemma parseFloat_462: "parseFloat_string (ascii ''4.62'') = Fin (5201657569612923 / 1125899906842624)"
  by (simp add: parseFloat_string_def str_decimal_literal_def unsigned_literal_def
      literal_value_def exponent_part_def digits_value_def is_digit_def is_white_space_def
      ascii_def cu_def number_462)

lemma parseFloat_488: "parseFloat_string (ascii ''4.88'') = Fin (5494391545392005 / 1125899906842624)"
  by (simp add: parseFloat_string_def str_decimal_literal_def unsigned_literal_def
      literal_value_def exponent_part_def digits_value_def is_digit_def is_white_space_def
      ascii_def cu_def number_488)

lemma parses_positive_rate: "parses_positive f \<Longrightarrow> positive_rate (parseFloat f)"
proof (cases f)
  case (RateString s)
  assume "parses_positive f"
  with RateString obtain q where q: "parseFloat_string s = Fin q" "0 < q"
    by (auto simp: parses_positive_def split: number.splits)
  then have "number_for q = Fin q" by (simp add: parseFloat_string_Number)
  with q RateString show ?thesis by (simp add: positive_rate_def)
next
  case (RateNumber n)
  assume "parses_positive f"
  with RateNumber show ?thesis
    by (cases n) (simp_all add: parses_positive_def positive_rate_def)
qed

text \<open>The single-language page returns the same rows, with the English display time only.\<close>

lemma format_item_single_eq: "format_item_single h item = english_only (format_item h item)"
  by (simp add: format_item_single_def format_item_def english_only_def Let_def)

lemma map_items_single_eq:
  "map_items_single h data = map_sum id (map english_only) (map_items h data)"
proof (induction data)
  case Nil
  show ?case by simp
next
  case (Cons x data)
  then show ?case
    by (cases x; cases "map_items h data") (simp_all add: format_item_single_eq)
qed

lemma formattedData_single_eq:
  "formattedData_single h data = map_sum id (map english_only) (formattedData h data)"
  by (cases "map_items h data")
     (simp_all add: formattedData_single_def formattedData_def map_items_single_eq reverse_def
      rev_map)

lemma try_block_single_eq:
  "try_block_single h fetched = map_sum id (map english_only) (try_block h fetched)"
  by (simp add: try_block_single_def try_block_def formattedData_single_eq
      split: fetch_result.splits option.splits json_data.splits)

lemma getServerSideProps_single_eq:
  "getServerSideProps_single h fetched =
     \<lparr> exchangeData_single = map english_only (exchangeData (getServerSideProps h fetched)),
       error_single = error (getServerSideProps h fetched) \<rparr>"
  by (cases "try_block h fetched")
     (simp_all add: getServerSideProps_single_def getServerSideProps_def try_block_single_eq)

lemma pool_english_only: "pool (map english_only data) = pool data"
  by (simp add: pool_def english_only_def comp_def)

lemma minRate_english_only: "minRate (map english_only data) = minRate data"
  by (simp add: minRate_def english_only_def comp_def)

lemma maxRate_english_only: "maxRate (map english_only data) = maxRate data"
  by (simp add: maxRate_def english_only_def comp_def)

section \<open>Facts about the axis domain\<close>

lemma minRate_pool: "minRate data = Math_floor (num_mul (Math_min (pool data)) (number_for (998 / 1000)))"
  by (simp add: minRate_def pool_def)

lemma maxRate_pool: "maxRate data = Math_ceil (num_mul (Math_max (pool data)) (number_for (1002 / 1000)))"
  by (simp add: maxRate_def pool_def)

lemma rate_batch_pool:
  "pool rate_batch =
     [Fin (2589569785738035 / 562949953421312), Fin (2617717283409101 / 562949953421312),
      Fin (2730307274093363 / 562949953421312), Fin (2758454771764429 / 562949953421312)]"
  by (simp add: pool_def rate_batch_def number_460 number_465 number_485 number_490)

lemma rate_batch_min: "Math_min (pool rate_batch) = Fin (2589569785738035 / 562949953421312)"
  by (simp add: rate_batch_pool Math_min_def)

lemma rate_batch_max: "Math_max (pool rate_batch) = Fin (2758454771764429 / 562949953421312)"
  by (simp add: rate_batch_pool Math_max_def)

lemma rate_batch_minRate: "minRate rate_batch = Fin 4"
  by (simp add: minRate_pool rate_batch_min literal_0998 num_mul_def is_zero_def is_inf_def
      product_460_0998 floor_eq_iff)

lemma rate_batch_maxRate: "maxRate rate_batch = Fin 5"
  by (simp add: maxRate_pool rate_batch_max literal_1002 num_mul_def is_zero_def is_inf_def
      product_490_1002 ceiling_eq_iff)

lemma minRate_empty: "minRate [] = PosInf"
  by (simp add: minRate_def Math_min_def num_mul_def literal_0998 is_zero_def is_inf_def)

lemma maxRate_empty: "maxRate [] = NegInf"
  by (simp add: maxRate_def Math_max_def num_mul_def literal_1002 is_zero_def is_inf_def)

lemma floor_less_ceiling: "(x::rat) < y \<Longrightarrow> \<lfloor>x\<rfloor> < \<lceil>y\<rceil>"
  by (meson floor_less_iff le_of_int_ceiling less_le_trans of_int_floor_le le_less_trans less_ceiling_iff)

text \<open>
  The heart of the ordering of the domain: for positive finite Numbers \<open>m \<le> M\<close>, the floor of the rounded
  \<open>m * 0.998\<close> is below the ceiling of the rounded \<open>M * 1.002\<close>.
\<close>

lemma padded_strict:
  fixes m M :: rat
  assumes m: "0 < m" and mM: "m \<le> M"
    and rm: "number_for m = Fin m" and rM: "number_for M = Fin M"
  shows "num_lt (Math_floor (number_for (m * (4494592428115755 / 4503599627370496))))
                (Math_ceil (number_for (M * (4512606826625237 / 4503599627370496))))"
proof -
  define c1 :: rat where "c1 = 4494592428115755 / 4503599627370496"
  define c2 :: rat where "c2 = 4512606826625237 / 4503599627370496"
  define a where "a = m * c1"
  define b where "b = M * c2"
  define tiny :: rat where "tiny = 2 powi (- 1074)"
  define ra where "ra = of_int (round_half_even (a / spacing a)) * spacing a"
  define rb where "rb = of_int (round_half_even (b / spacing b)) * spacing b"
  have M: "0 < M" using m mM by linarith
  have c1: "0 < c1" "c1 < 1" and c2: "1 < c2" by (simp_all add: c1_def c2_def)
  have a: "0 < a" using m c1 by (simp add: a_def)
  have b: "0 < b" using M c2 by (simp add: b_def)
  have tiny: "0 < tiny" by (simp add: tiny_def)
  have normal: "2 powi (- 1022) = tiny * 2 ^ 52" by (simp add: tiny_def)
  have tiny_small: "tiny * 2 ^ 52 + tiny / 2 < 1" by (simp add: tiny_def)
  have m_top: "m < 2 ^ 1024" using representable_bounds(2)[OF m rm] .
  have M_low: "tiny \<le> M" using representable_bounds(1)[OF M rM] by (simp only: tiny_def)
  have a_le: "a \<le> M * c1" using mM c1 by (simp add: a_def)
  have a_lt_b: "a < b"
  proof -
    have "M * c1 < M * c2" using M c1 c2 by simp
    with a_le show ?thesis by (simp add: b_def)
  qed
  have gap: "a < b - b / 2 ^ 52"
  proof -
    have "c1 < c2 - c2 / 2 ^ 52" by (simp add: c1_def c2_def)
    then have "M * c1 < M * (c2 - c2 / 2 ^ 52)" using M by (rule mult_strict_left_mono)
    also have "\<dots> = b - b / 2 ^ 52" by (simp add: b_def algebra_simps)
    finally show ?thesis using a_le by linarith
  qed
  have ra_upper: "ra \<le> a + spacing a / 2" unfolding ra_def by (rule rounded_upper)
  have rb_lower: "b - spacing b / 2 \<le> rb" unfolding rb_def by (rule rounded_lower)
  have ra_nonneg: "0 \<le> ra" unfolding ra_def by (rule rounded_nonneg[OF a])
  have rb_nonneg: "0 \<le> rb" unfolding rb_def by (rule rounded_nonneg[OF b])
  have ra_fin: "number_for a = Fin ra"
  proof -
    have "a < 2 ^ 1024 * c1" using m_top c1 by (simp add: a_def)
    moreover have "2 ^ 1024 * c1 + 2 powi 971 / 2 < (2 ^ 1024 :: rat)" by (simp add: c1_def)
    moreover have "(2 ^ 1024 :: rat) * c1 < 2 ^ 1024" using c1 by simp
    ultimately have top: "a < 2 powi 1024" and "a + 2 powi 971 / 2 < 2 ^ 1024" by simp_all
    moreover have "spacing a \<le> 2 powi 971" by (rule spacing_le_top[OF a top])
    ultimately have "ra < 2 ^ 1024" using ra_upper by linarith
    then show ?thesis by (simp add: number_for_pos[OF a] ra_def)
  qed
  have floor_a: "Math_floor (number_for a) = Fin (of_int \<lfloor>ra\<rfloor>)" by (simp add: ra_fin)
  show ?thesis
  proof (cases "2 ^ 1024 \<le> rb")
    case True
    then have "number_for b = PosInf" by (simp add: number_for_pos[OF b] rb_def)
    then show ?thesis using floor_a by (simp add: a_def b_def c1_def c2_def)
  next
    case False
    then have rb_fin: "number_for b = Fin rb" by (simp add: number_for_pos[OF b] rb_def)
    have main: "0 < rb \<and> \<lfloor>ra\<rfloor> < \<lceil>rb\<rceil>"
    proof (cases "tiny * 2 ^ 52 \<le> b")
      case True
      then have "tiny \<le> b / 2 ^ 52" by (simp add: field_simps)
      then have sb: "spacing b \<le> b / 2 ^ 52" using spacing_le[OF b] by (simp add: tiny_def max_def split: if_splits)
      have "a / 2 ^ 52 \<le> b / 2 ^ 52" using a_lt_b by (simp add: divide_right_mono)
      with \<open>tiny \<le> b / 2 ^ 52\<close> have sa: "spacing a \<le> b / 2 ^ 52"
        using spacing_le[OF a] by (simp add: tiny_def max_def split: if_splits)
      have "ra < rb" using ra_upper rb_lower sa sb gap by linarith
      moreover have "0 < rb" using ra_nonneg \<open>ra < rb\<close> by linarith
      ultimately show ?thesis by (simp add: floor_less_ceiling)
    next
      case False
      then have bsub: "b < tiny * 2 ^ 52" by simp
      then have "b / 2 ^ 52 < tiny" by (simp add: field_simps)
      then have sb: "spacing b \<le> tiny" using spacing_le[OF b] by (simp add: tiny_def max_def split: if_splits)
      have "a / 2 ^ 52 < b / 2 ^ 52" using a_lt_b by (simp add: divide_strict_right_mono)
      with \<open>b / 2 ^ 52 < tiny\<close> have sa: "spacing a \<le> tiny"
        using spacing_le[OF a] by (simp add: tiny_def max_def split: if_splits)
      have "ra < 1" using ra_upper sa a_lt_b bsub tiny_small by linarith
      then have fl: "\<lfloor>ra\<rfloor> < 1" by (simp add: floor_less_iff)
      have "tiny * c2 \<le> b" using M_low c2 by (simp add: b_def)
      moreover have "tiny < tiny * c2" using tiny c2 by simp
      ultimately have "0 < rb" using rb_lower sb tiny by linarith
      then have "0 < \<lceil>rb\<rceil>" by simp
      with fl \<open>0 < rb\<close> show ?thesis by linarith
    qed
    then have "Math_ceil (number_for b) = Fin (of_int \<lceil>rb\<rceil>)" by (simp add: rb_fin)
    with floor_a main show ?thesis by (simp add: a_def b_def c1_def c2_def)
  qed
qed

lemma positive_rate_Fin: "positive_rate r \<Longrightarrow> \<exists>q. r = Fin q \<and> 0 < q \<and> number_for q = Fin q"
  by (cases r) (simp_all add: positive_rate_def)

text \<open>A \<open>NaN\<close> rate makes both ends of the domain \<open>NaN\<close>.\<close>

lemma min_loop_NaN: "NaN \<in> set ns \<Longrightarrow> min_loop lowest ns = NaN"
  by (induction ns arbitrary: lowest) auto

lemma max_loop_NaN: "NaN \<in> set ns \<Longrightarrow> max_loop highest ns = NaN"
  by (induction ns arbitrary: highest) auto

lemma minRate_NaN: "NaN \<in> set (pool data) \<Longrightarrow> minRate data = NaN"
  by (simp add: minRate_pool Math_min_def min_loop_NaN num_mul_def)

lemma maxRate_NaN: "NaN \<in> set (pool data) \<Longrightarrow> maxRate data = NaN"
  by (simp add: maxRate_pool Math_max_def max_loop_NaN num_mul_def)

lemma parseFloat_na: "parseFloat_string (ascii ''N/A'') = NaN"
  by (rule no_numeric_prefix_NaN[OF na_no_prefix])

lemma nan_rate_pool: "pool nan_rate_data = [NaN, Fin (5494391545392005 / 1125899906842624)]"
  by (simp add: nan_rate_data_def getServerSideProps_def try_block_def ok_def
      formattedData_def reverse_def pool_def buying_rate_format_item selling_rate_format_item
      parseFloat_na parseFloat_488)

lemma rounded_rate_pool:
  "pool rounded_rate_batch =
     [Fin (3384468657843559 / 1125899906842624), Fin (3384468657843559 / 1125899906842624)]"
  by (simp add: pool_def rounded_rate_batch_def number_3006)

lemma rounded_rate_minRate: "minRate rounded_rate_batch = Fin 3"
  by (simp add: minRate_pool rounded_rate_pool Math_min_def literal_0998 num_mul_def
      is_zero_def is_inf_def product_3006_0998)

lemma parseFloat_Infinity: "parseFloat_string (ascii ''Infinity'') = PosInf"
  by (simp add: parseFloat_string_def str_decimal_literal_def unsigned_literal_def
      is_white_space_def ascii_def cu_def)

lemma num_mul_PosInf:
  "num_mul PosInf (number_for (499 / 500)) = PosInf"
  "num_mul PosInf (number_for (501 / 500)) = PosInf"
  by (simp_all add: num_mul_def literal_0998 literal_1002 is_zero_def is_inf_def)

lemma infinite_rates_pool: "pool infinite_rates_data = [PosInf, PosInf]"
  by (simp add: infinite_rates_data_def getServerSideProps_def try_block_def ok_def
      formattedData_def reverse_def pool_def buying_rate_format_item selling_rate_format_item
      parseFloat_Infinity)

text \<open>The two ends of the domain, for a pool of positive rates.\<close>

lemma padded_pool:
  assumes ne: "ns \<noteq> []" and pos: "list_all positive_rate ns"
  shows "num_lt (Math_floor (num_mul (Math_min ns) (number_for (998 / 1000))))
                (Math_ceil (num_mul (Math_max ns) (number_for (1002 / 1000))))"
proof -
  have pos: "\<And>r. r \<in> set ns \<Longrightarrow> positive_rate r"
    using pos by (simp add: list_all_iff)
  have nn: "NaN \<notin> set ns"
  proof
    assume "NaN \<in> set ns"
    then have "positive_rate NaN" by (rule pos)
    then show False by (simp add: positive_rate_def)
  qed
  from Math_min_least[OF ne nn] Math_max_greatest[OF ne nn]
  have lo: "Math_min ns \<in> set ns" and hi: "Math_max ns \<in> set ns"
    and le: "num_le (Math_min ns) (Math_max ns)"
    by auto
  from positive_rate_Fin[OF pos[OF lo]] obtain m
    where m: "Math_min ns = Fin m" "0 < m" "number_for m = Fin m" by blast
  from positive_rate_Fin[OF pos[OF hi]] obtain M
    where M: "Math_max ns = Fin M" "0 < M" "number_for M = Fin M" by blast
  have mM: "m \<le> M" using le by (simp add: m M num_le_def)
  have "num_mul (Math_min ns) (number_for (998 / 1000))
          = number_for (m * (4494592428115755 / 4503599627370496))"
    using m(2) by (simp add: m(1) literal_0998 num_mul_def is_zero_def is_inf_def)
  moreover have "num_mul (Math_max ns) (number_for (1002 / 1000))
          = number_for (M * (4512606826625237 / 4503599627370496))"
    using M(2) by (simp add: M(1) literal_1002 num_mul_def is_zero_def is_inf_def)
  ultimately show ?thesis
    using padded_strict[OF m(2) mM m(3) M(3)] by simp
qed

section \<open>The claims\<close>

text \<open>
  C1 (as amended). For every array of raw records the transform step returns an array of
  the same length whose timestamps are the input's timestamps in reverse order. So the
  output is chronological exactly when the input is newest first; the step does not sort.
\<close>

theorem transform_length_and_order:
  "\<exists>out. formattedData h (map Some raws) = Inr out
     \<and> length out = length raws
     \<and> map timestamp out = rev (map timestamp raws)
     \<and> chronological h (map timestamp out) = newest_first h (map timestamp raws)"
proof -
  let ?out = "rev (map (format_item h) raws)"
  have ts: "map timestamp ?out = rev (map timestamp raws)"
    by (simp add: rev_map timestamp_format_item comp_def)
  have "chronological h (rev (map timestamp raws)) = newest_first h (map timestamp raws)"
    by (simp add: chronological_def newest_first_def sorted_wrt_rev)
  with ts show ?thesis
    by (simp add: formattedData_records)
qed

text \<open>
  C1 as stated fails: two records with numeric rates, sent oldest first, come out newest
  first.
\<close>

theorem transform_order_counterexample:
  "\<not> chronological host_utc (map timestamp (exchangeData (getServerSideProps host_utc
       (Resolved \<lparr> status = 200, json = Some (Array
          [Some \<lparr> buying_rate = RateString (ascii ''4.62''),
                  selling_rate = RateString (ascii ''4.88''),
                  timestamp = ascii ''2024-03-01T09:05:00Z'' \<rparr>,
           Some \<lparr> buying_rate = RateString (ascii ''4.63''),
                  selling_rate = RateString (ascii ''4.89''),
                  timestamp = ascii ''2024-03-02T09:05:00Z'' \<rparr>]) \<rparr>))))"
  by (simp add: getServerSideProps_def try_block_def ok_def formattedData_def reverse_def
      timestamp_format_item chronological_def not_after_def Date_parse_def
      parse_utc_example parse_utc_next_day)

text \<open>
  C2 (as amended). For every non-empty batch without a \<open>NaN\<close> rate, the lower end of the
  axis domain is the floor of 0.998 times the least rate of the pool, and the upper end is
  the ceiling of 1.002 times the greatest rate of the pool, where each product is the
  Number that the multiplication of Numbers yields, rounded before the floor or the ceiling
  is taken. When some rate is \<open>NaN\<close>, both ends are \<open>NaN\<close>. For the buying rates 4.60, 4.65
  and the selling rates 4.85, 4.90 the domain is 4 to 5.
\<close>

theorem axis_domain_formula:
  assumes "data \<noteq> []"
  shows "(NaN \<notin> set (pool data) \<longrightarrow>
           (\<exists>lo\<in>set (pool data). \<exists>hi\<in>set (pool data).
              (\<forall>x\<in>set (pool data). num_le lo x \<and> num_le x hi)
              \<and> minRate data = Math_floor (num_mul lo (number_for (998 / 1000)))
              \<and> maxRate data = Math_ceil (num_mul hi (number_for (1002 / 1000)))))
         \<and> (NaN \<in> set (pool data) \<longrightarrow> minRate data = NaN \<and> maxRate data = NaN)
         \<and> minRate rate_batch = Fin 4 \<and> maxRate rate_batch = Fin 5"
proof -
  have ne: "pool data \<noteq> []" using assms by (simp add: pool_def)
  have "\<exists>lo\<in>set (pool data). \<exists>hi\<in>set (pool data).
            (\<forall>x\<in>set (pool data). num_le lo x \<and> num_le x hi)
            \<and> minRate data = Math_floor (num_mul lo (number_for (998 / 1000)))
            \<and> maxRate data = Math_ceil (num_mul hi (number_for (1002 / 1000)))"
    if nn: "NaN \<notin> set (pool data)"
    using Math_min_least[OF ne nn] Math_max_greatest[OF ne nn]
    unfolding minRate_pool maxRate_pool by blast
  moreover have "minRate data = NaN \<and> maxRate data = NaN" if "NaN \<in> set (pool data)"
    using that by (simp add: minRate_NaN maxRate_NaN)
  ultimately show ?thesis using rate_batch_minRate rate_batch_maxRate by simp
qed

theorem axis_domain_formula_witness:
  "rate_batch \<noteq> [] \<and> NaN \<notin> set (pool rate_batch)
   \<and> (\<exists>lo hi. lo \<in> set (pool rate_batch) \<and> hi \<in> set (pool rate_batch)
         \<and> minRate rate_batch = Math_floor (num_mul lo (number_for (998 / 1000)))
         \<and> maxRate rate_batch = Math_ceil (num_mul hi (number_for (1002 / 1000))))
   \<and> minRate rate_batch = Fin 4 \<and> maxRate rate_batch = Fin 5
   \<and> nan_rate_data \<noteq> [] \<and> NaN \<in> set (pool nan_rate_data)
   \<and> minRate nan_rate_data = NaN \<and> maxRate nan_rate_data = NaN"
proof -
  have ne: "rate_batch \<noteq> []" by (simp add: rate_batch_def)
  have nn: "NaN \<notin> set (pool rate_batch)" by (simp add: rate_batch_pool)
  have ne': "nan_rate_data \<noteq> []" using nan_rate_pool by (auto simp add: pool_def)
  have n: "NaN \<in> set (pool nan_rate_data)" by (simp add: nan_rate_pool)
  from axis_domain_formula[OF ne] axis_domain_formula[OF ne'] ne nn ne' n
  show ?thesis by blast
qed

text \<open>
  C2 as stated fails in two ways. A batch with a \<open>NaN\<close> rate, which the page builds from
  the rate \<^verbatim>\<open>"N/A"\<close>, has both ends \<open>NaN\<close>, although the formula gives 4 and 5 for the one
  rate that is a number. And the product is rounded before the floor is taken: for the rate
  3.006012024048096 the lower end is 3, while the floor of 0.998 times that rate is 2.
\<close>

theorem axis_domain_counterexample:
  "pool nan_rate_data = [NaN, Fin (5494391545392005 / 1125899906842624)]
   \<and> minRate nan_rate_data = NaN \<and> maxRate nan_rate_data = NaN
   \<and> Math_floor (num_mul (Fin (5494391545392005 / 1125899906842624)) (number_for (998 / 1000))) = Fin 4
   \<and> Math_ceil (num_mul (Fin (5494391545392005 / 1125899906842624)) (number_for (1002 / 1000))) = Fin 5
   \<and> pool rounded_rate_batch
       = [Fin (3384468657843559 / 1125899906842624), Fin (3384468657843559 / 1125899906842624)]
   \<and> minRate rounded_rate_batch = Fin 3
   \<and> \<lfloor>(3384468657843559 / 1125899906842624) * (998 / 1000) :: rat\<rfloor> = 2"
proof -
  have n: "NaN \<in> set (pool nan_rate_data)" by (simp add: nan_rate_pool)
  have lo: "Math_floor (num_mul (Fin (5494391545392005 / 1125899906842624)) (number_for (998 / 1000))) = Fin 4"
    by (simp add: literal_0998 num_mul_def is_zero_def is_inf_def product_488_0998 floor_eq_iff)
  have hi: "Math_ceil (num_mul (Fin (5494391545392005 / 1125899906842624)) (number_for (1002 / 1000))) = Fin 5"
    by (simp add: literal_1002 num_mul_def is_zero_def is_inf_def product_488_1002 ceiling_eq_iff)
  have ex: "\<lfloor>(3384468657843559 / 1125899906842624) * (998 / 1000) :: rat\<rfloor> = 2"
    by (simp add: floor_eq_iff)
  show ?thesis
    using nan_rate_pool minRate_NaN[OF n] maxRate_NaN[OF n] lo hi rounded_rate_pool
      rounded_rate_minRate ex by blast
qed

text \<open>
  C3 (as amended). On a host whose local time is UTC at that instant, the record of the
  example gets the English display time \<^verbatim>\<open>Mar-01 09:05\<close> and the Chinese display time
  \<^verbatim>\<open>3\<close>, U+6708, \<^verbatim>\<open>1\<close>, U+65E5, \<^verbatim>\<open> 09:05\<close>. The display times are read off the host's
  local time.
\<close>

theorem example_display_time:
  assumes "LocalTZA h 1709283900000 = 0"
  shows "formattedTime (format_item h example_record)
     = \<lparr> en = ascii ''Mar-01 09:05'',
         zh = ascii ''3'' @ [0x6708] @ ascii ''1'' @ [0x65E5] @ ascii '' 09:05'' \<rparr>"
proof -
  have "LocalTime h 1709283900000 = 1709283900000"
    using assms by (simp add: LocalTime_def)
  then show ?thesis
    by (simp add: formattedTime_of_date[OF example_record_date] fields_utc int_toString_def
        decimals padStart_ascii month_short_2) (simp add: ascii_def cu_def padStart_def)
qed

theorem example_display_time_witness:
  "LocalTZA host_utc 1709283900000 = 0
   \<and> formattedTime (format_item host_utc example_record)
     = \<lparr> en = ascii ''Mar-01 09:05'',
         zh = ascii ''3'' @ [0x6708] @ ascii ''1'' @ [0x65E5] @ ascii '' 09:05'' \<rparr>"
  using example_display_time[of host_utc] by (simp add: host_utc_def)


text \<open>
  C3 as stated fails on a host eight hours ahead of UTC: the same record is shown at 17:05.
\<close>

theorem example_display_time_counterexample:
  "formattedTime (format_item host_shanghai example_record)
     = \<lparr> en = ascii ''Mar-01 17:05'',
         zh = ascii ''3'' @ [0x6708] @ ascii ''1'' @ [0x65E5] @ ascii '' 17:05'' \<rparr>
   \<and> en (formattedTime (format_item host_shanghai example_record)) \<noteq> ascii ''Mar-01 09:05''"
proof -
  have "LocalTime host_shanghai 1709283900000 = 1709312700000"
    by (simp add: LocalTime_def host_shanghai_def)
  then have "formattedTime (format_item host_shanghai example_record)
     = \<lparr> en = ascii ''Mar-01 17:05'',
         zh = ascii ''3'' @ [0x6708] @ ascii ''1'' @ [0x65E5] @ ascii '' 17:05'' \<rparr>"
    by (simp add: formattedTime_of_date[OF example_record_date] fields_shanghai int_toString_def
        decimals padStart_ascii month_short_2) (simp add: ascii_def cu_def padStart_def)
  moreover have "ascii ''Mar-01 17:05'' \<noteq> ascii ''Mar-01 09:05''"
    by (simp add: ascii_def cu_def)
  ultimately show ?thesis by simp
qed






text \<open>
  C5 (as amended). On an empty record sequence the domain calculation neither fails nor
  reports an error: the domain runs from \<open>+\<infinity>\<close> to \<open>-\<infinity>\<close>, and the chart is rendered
  with it.
\<close>

theorem empty_dataset_domain:
  "minRate [] = PosInf \<and> maxRate [] = NegInf
   \<and> CurrencyExchangeGraph \<lparr> exchangeData = [], error = None \<rparr> language
       = Chart \<lparr> y_domain = (PosInf, NegInf), rows = [], labels = language \<rparr>"
  by (simp add: minRate_empty maxRate_empty CurrencyExchangeGraph_def localizedData_def)

text \<open>
  C5 as stated fails: when the service answers with an empty array the page shows a chart,
  not an error.
\<close>

theorem empty_dataset_counterexample:
  "CurrencyExchangeGraph
     (getServerSideProps host_utc (Resolved \<lparr> status = 200, json = Some (Array []) \<rparr>)) En
   = Chart \<lparr> y_domain = (PosInf, NegInf), rows = [], labels = En \<rparr>"
  by (simp add: getServerSideProps_def try_block_def ok_def formattedData_def reverse_def
      minRate_empty maxRate_empty CurrencyExchangeGraph_def localizedData_def)

text \<open>
  C6. A response whose status is not 200 to 299 makes the fetch step throw an error whose
  message carries the status, and the page renders the error panel with the generic
  message, whatever the language; no chart is rendered.
\<close>

theorem non_2xx_is_error_panel:
  assumes "status r < 200 \<or> 299 < status r"
  shows "try_block h (Resolved r)
           = Inl (Error (ascii ''API request failed with status '' @ decimal (status r)))
         \<and> CurrencyExchangeGraph (getServerSideProps h (Resolved r)) language
           = ErrorPanel (ascii ''Failed to fetch exchange rate data. Please try again later.'')"
proof -
  have "\<not> ok r" using assms by (auto simp: ok_def)
  then have "try_block h (Resolved r)
           = Inl (Error (ascii ''API request failed with status '' @ decimal (status r)))"
    by (simp add: try_block_def)
  then show ?thesis
    by (simp add: getServerSideProps_def CurrencyExchangeGraph_def ascii_def)
qed

theorem non_2xx_is_error_panel_witness:
  "try_block host_utc (Resolved \<lparr> status = 500, json = Some (Array [Some example_record]) \<rparr>)
     = Inl (Error (ascii ''API request failed with status 500''))
   \<and> CurrencyExchangeGraph (getServerSideProps host_utc
        (Resolved \<lparr> status = 500, json = Some (Array [Some example_record]) \<rparr>)) En
     = ErrorPanel (ascii ''Failed to fetch exchange rate data. Please try again later.'')"
  using non_2xx_is_error_panel
    [of "\<lparr> status = 500, json = Some (Array [Some example_record]) \<rparr>" host_utc En]
  by (simp add: decimal_500 ascii_def cu_def)

text \<open>
  C7 (as amended). For every non-empty dataset whose buying and selling rates are all
  positive and finite, the lower end of the axis domain is below the upper end.
\<close>

theorem positive_rates_min_below_max:
  assumes "data \<noteq> []" and "list_all positive_rate (pool data)"
  shows "num_lt (minRate data) (maxRate data)"
proof -
  have "pool data \<noteq> []" using assms(1) by (simp add: pool_def)
  then have "num_lt (Math_floor (num_mul (Math_min (pool data)) (number_for (998 / 1000))))
                    (Math_ceil (num_mul (Math_max (pool data)) (number_for (1002 / 1000))))"
    using assms(2) by (rule padded_pool)
  then show ?thesis by (simp only: minRate_pool maxRate_pool)
qed

theorem positive_rates_min_below_max_witness:
  "rate_batch \<noteq> [] \<and> list_all positive_rate (pool rate_batch)
   \<and> num_lt (minRate rate_batch) (maxRate rate_batch)"
proof -
  have ne: "rate_batch \<noteq> []" by (simp add: rate_batch_def)
  have pos: "list_all positive_rate (pool rate_batch)"
    by (simp add: rate_batch_pool positive_rate_def number_460_fixed number_465_fixed
        number_485_fixed number_490_fixed)
  from positive_rates_min_below_max[OF ne pos] ne pos show ?thesis by simp
qed

text \<open>
  C7 as stated fails for rates that are positive but not finite: when every rate is
  \<open>+\<infinity>\<close>, both ends of the domain are \<open>+\<infinity>\<close>.
\<close>

theorem infinite_rates_counterexample:
  "pool infinite_rates_data = [PosInf, PosInf] \<and> num_lt (Fin 0) PosInf
   \<and> minRate infinite_rates_data = PosInf \<and> maxRate infinite_rates_data = PosInf
   \<and> \<not> num_lt (minRate infinite_rates_data) (maxRate infinite_rates_data)"
proof -
  have "minRate infinite_rates_data = PosInf" "maxRate infinite_rates_data = PosInf"
    by (simp_all add: minRate_pool maxRate_pool infinite_rates_pool Math_min_def Math_max_def
        num_mul_PosInf)
  then show ?thesis by (simp add: infinite_rates_pool)
qed

text \<open>
  C8. Reversing twice gives the array back; so reversing the output of the transform step
  recovers the formatted records in the order in which the input had them.
\<close>

theorem reverse_round_trip:
  "reverse (reverse xs) = xs
   \<and> (\<exists>out. formattedData h (map Some raws) = Inr out
          \<and> reverse out = map (format_item h) raws)"
  by (simp add: formattedData_records reverse_def)

text \<open>
  C9. Whenever \<^verbatim>\<open>getServerSideProps\<close> returns an error string, the \<^verbatim>\<open>exchangeData\<close> it
  returns is the empty array.
\<close>

theorem error_is_atomic:
  "error (getServerSideProps h fetched) \<noteq> None
   \<Longrightarrow> exchangeData (getServerSideProps h fetched) = []"
  by (auto simp: getServerSideProps_def split: sum.splits)

theorem error_is_atomic_witness:
  "error (getServerSideProps host_utc (Resolved \<lparr> status = 500, json = None \<rparr>)) \<noteq> None
   \<and> exchangeData (getServerSideProps host_utc (Resolved \<lparr> status = 500, json = None \<rparr>)) = []"
  using error_is_atomic[of host_utc "Resolved \<lparr> status = 500, json = None \<rparr>"]
  by (simp add: getServerSideProps_def try_block_def ok_def)

text \<open>
  C10. Toggling the language twice restores it, and after any number of toggles the
  language is English or Chinese.
\<close>

theorem toggle_involution:
  "toggleLanguage (toggleLanguage language) = language
   \<and> (toggleLanguage ^^ n) language \<in> {En, Zh}"
  by (cases language; cases "(toggleLanguage ^^ n) language") (simp_all add: toggleLanguage_def)

section \<open>Further properties\<close>

text \<open>
  The single-language page returns, for every outcome of the fetch, the error of the
  two-language page and its rows with the English display time only; the domain of its
  value axis is the same.
\<close>

theorem single_page_same_rows:
  "getServerSideProps_single h fetched =
     \<lparr> exchangeData_single = map english_only (exchangeData (getServerSideProps h fetched)),
       error_single = error (getServerSideProps h fetched) \<rparr>
   \<and> minRate (exchangeData_single (getServerSideProps_single h fetched))
       = minRate (exchangeData (getServerSideProps h fetched))
   \<and> maxRate (exchangeData_single (getServerSideProps_single h fetched))
       = maxRate (exchangeData (getServerSideProps h fetched))"
  by (simp add: getServerSideProps_single_eq minRate_english_only maxRate_english_only)

text \<open>
  From the response to the chart: when the service answers with at least one record and
  every rate field parses to a positive rate, the page renders a chart whose domain has its
  lower end below its upper end.
\<close>

theorem page_domain_ordered:
  assumes "ok r" and "json r = Some (Array (map Some raws))" and "raws \<noteq> []"
    and "list_all (\<lambda>item. parses_positive (buying_rate item) \<and> parses_positive (selling_rate item)) raws"
  shows "\<exists>c. CurrencyExchangeGraph (getServerSideProps h (Resolved r)) language = Chart c
           \<and> num_lt (fst (y_domain c)) (snd (y_domain c))"
proof -
  let ?data = "rev (map (format_item h) raws)"
  have props: "getServerSideProps h (Resolved r) = \<lparr> exchangeData = ?data, error = None \<rparr>"
    by (simp add: getServerSideProps_def try_block_records[OF assms(1,2)])
  have ne: "?data \<noteq> []" using assms(3) by simp
  have "\<And>item. item \<in> set raws \<Longrightarrow>
      positive_rate (parseFloat (buying_rate item)) \<and> positive_rate (parseFloat (selling_rate item))"
    using assms(4) by (simp add: list_all_iff parses_positive_rate)
  then have "list_all positive_rate (pool ?data)"
    by (auto simp: pool_def list_all_iff buying_rate_format_item selling_rate_format_item)
  moreover have "pool ?data \<noteq> []" using ne by (simp add: pool_def)
  ultimately have "num_lt (minRate ?data) (maxRate ?data)"
    unfolding minRate_pool maxRate_pool by (intro padded_pool)
  then show ?thesis by (simp add: props CurrencyExchangeGraph_def)
qed

theorem page_domain_ordered_witness:
  "ok \<lparr> status = 200, json = Some (Array (map Some [example_record])) \<rparr>
   \<and> [example_record] \<noteq> []
   \<and> list_all (\<lambda>item. parses_positive (buying_rate item) \<and> parses_positive (selling_rate item))
        [example_record]
   \<and> (\<exists>c. CurrencyExchangeGraph (getServerSideProps host_utc
              (Resolved \<lparr> status = 200, json = Some (Array (map Some [example_record])) \<rparr>)) En
            = Chart c
          \<and> num_lt (fst (y_domain c)) (snd (y_domain c)))"
proof -
  let ?r = "\<lparr> status = 200, json = Some (Array (map Some [example_record])) \<rparr>"
  have ok: "ok ?r" by (simp add: ok_def)
  have j: "json ?r = Some (Array (map Some [example_record]))" by simp
  have ne: "[example_record] \<noteq> []" by simp
  have pos: "list_all (\<lambda>item. parses_positive (buying_rate item) \<and> parses_positive (selling_rate item))
        [example_record]"
    by (simp add: example_record_def parses_positive_def parseFloat_462 parseFloat_488)
  from page_domain_ordered[OF ok j ne pos, of host_utc En] ok ne pos show ?thesis by blast
qed

text \<open>
  The rows of the chart keep the rates and the timestamp of every record and show the
  display time of the selected language.
\<close>

theorem localized_rows:
  "map buying_rate (localizedData language data) = map buying_rate data
   \<and> map selling_rate (localizedData language data) = map selling_rate data
   \<and> map timestamp (localizedData language data) = map timestamp data
   \<and> map formattedTime_shown (localizedData En data) = map (\<lambda>item. en (formattedTime item)) data
   \<and> map formattedTime_shown (localizedData Zh data) = map (\<lambda>item. zh (formattedTime item)) data"
  by (simp add: localizedData_def comp_def)

end
